theory Spec2Isabelle
  imports Main "HOL-Library.Sublist"
begin

section \<open>Text as Python sees it\<close>

text \<open>
  A Python \<open>str\<close> is a sequence of Unicode code points, so text is a list of naturals
  and not a list of bytes. The literals of the source are all ASCII; \<open>ustr\<close> reads one
  from an Isabelle string literal.
\<close>

type_synonym ustring = "nat list"

definition ustr :: "string \<Rightarrow> ustring" where
  "ustr s = map of_char s"

text \<open>\<open>s.startswith(p)\<close> and \<open>m in s\<close> on \<open>str\<close>.\<close>

definition startswith :: "ustring \<Rightarrow> ustring \<Rightarrow> bool" where
  "startswith s p = prefix p s"

definition contains :: "ustring \<Rightarrow> ustring \<Rightarrow> bool" where
  "contains s m = sublist m s"

section \<open>TextNormalizer: \<open>normalize_text_for_matching\<close>\<close>

text \<open>
  \<open>unicodedata.normalize('NFKD', text)\<close> belongs to the Python standard library, not to
  the program: the Unicode decomposition tables are taken as the parameter \<open>nfkd\<close> of
  every function that normalizes. The one fact of the Unicode standard that the
  development relies on is stated as \<open>nfkd_fixes_ascii\<close>: text made of code points below
  128 has no decomposition and is returned as it is.
\<close>

definition is_ascii :: "nat \<Rightarrow> bool" where
  "is_ascii c = (c < 128)"

definition nfkd_fixes_ascii :: "(ustring \<Rightarrow> ustring) \<Rightarrow> bool" where
  "nfkd_fixes_ascii nfkd = (\<forall>s. list_all is_ascii s \<longrightarrow> nfkd s = s)"

text \<open>
  \<open>.encode('ascii', 'ignore').decode('utf-8', 'ignore')\<close>: every code point that has no
  ASCII encoding is dropped, and the remaining bytes decode to themselves.
\<close>

definition encode_ascii_ignore :: "ustring \<Rightarrow> ustring" where
  "encode_ascii_ignore s = filter is_ascii s"

text \<open>
  \<open>str.lower()\<close>, which the source only ever applies to the ASCII text left by
  \<open>encode_ascii_ignore\<close>: there it maps \<open>A\<close>..\<open>Z\<close> to \<open>a\<close>..\<open>z\<close> and nothing else.
\<close>

definition lower_char :: "nat \<Rightarrow> nat" where
  "lower_char c = (if 65 \<le> c \<and> c \<le> 90 then c + 32 else c)"

definition lower :: "ustring \<Rightarrow> ustring" where
  "lower s = map lower_char s"

text \<open>
  The class \<open>\s\<close> of a \<open>str\<close> pattern, on ASCII text: tab, line feed, vertical tab, form
  feed, carriage return, the four separators U+001C..U+001F and the space.
  \<open>re.sub(r'\s+', '', s)\<close> deletes every maximal run of such characters, that is every
  such character.
\<close>

definition is_whitespace :: "nat \<Rightarrow> bool" where
  "is_whitespace c = ((9 \<le> c \<and> c \<le> 13) \<or> (28 \<le> c \<and> c \<le> 32))"

definition remove_whitespace :: "ustring \<Rightarrow> ustring" where
  "remove_whitespace s = filter (\<lambda>c. \<not> is_whitespace c) s"

definition normalize_text_for_matching :: "(ustring \<Rightarrow> ustring) \<Rightarrow> ustring \<Rightarrow> ustring" where
  "normalize_text_for_matching nfkd text =
     (if text = [] then []
      else let nfkd_form = nfkd text;
               only_ascii = encode_ascii_ignore nfkd_form;
               lower_case = lower only_ascii;
               no_whitespace = remove_whitespace lower_case
           in no_whitespace)"

text \<open>
  An excerpt of the compatibility decomposition, to run the model on concrete text:
  a few accented Latin letters split into base letter and combining mark, the ligature
  U+FB01 into \<open>fi\<close>, the no-break space into a space; every other code point, and so
  every ASCII one, stands for itself.
\<close>

fun decompose_sample :: "nat \<Rightarrow> ustring" where
  "decompose_sample c =
     (if c = 233 then [101, 769]
      else if c = 201 then [69, 769]
      else if c = 224 then [97, 768]
      else if c = 231 then [99, 807]
      else if c = 64257 then [102, 105]
      else if c = 160 then [32]
      else [c])"

definition nfkd_sample :: "ustring \<Rightarrow> ustring" where
  "nfkd_sample s = concat (map decompose_sample s)"

section \<open>Exceptions and their messages\<close>

text \<open>
  The program raises Python exceptions whose only payload is an f-string. A message is
  kept as the sequence of its pieces: the literal text of the f-string, an interpolated
  \<open>str\<close>, an interpolated list of \<open>str\<close> (which Python prints as the list of its
  elements). \<open>{e}\<close> of a caught exception interpolates that exception's message.
\<close>

datatype fragment = Text string | Str ustring | StrList "ustring list"

type_synonym message = "fragment list"

datatype py_exception =
    FileNotFoundError message
  | ValueError message
  | AnalysisException message
  | Exception message

fun exc_message :: "py_exception \<Rightarrow> message" where
  "exc_message (FileNotFoundError m) = m"
| "exc_message (ValueError m) = m"
| "exc_message (AnalysisException m) = m"
| "exc_message (Exception m) = m"

definition sq :: string where
  "sq = [CHR 0x27]"

text \<open>
  What a reader of the message finds in it: a text, when a literal piece contains it or
  an interpolated \<open>str\<close> is it; a list of names, when that list was interpolated.
\<close>

fun fragment_has_text :: "ustring \<Rightarrow> fragment \<Rightarrow> bool" where
  "fragment_has_text s (Text t) = contains (ustr t) s"
| "fragment_has_text s (Str u) = (u = s)"
| "fragment_has_text s (StrList us) = False"

definition carries_text :: "message \<Rightarrow> ustring \<Rightarrow> bool" where
  "carries_text m s = list_ex (fragment_has_text s) m"

definition carries_list :: "message \<Rightarrow> ustring list \<Rightarrow> bool" where
  "carries_list m names = list_ex (\<lambda>f. f = StrList names) m"

section \<open>The spreadsheet and the tabular engine\<close>

text \<open>
  A data frame is the engine's: \<open>df_spark_raw\<close> and what is derived from it. It has an
  ordered header and rows; a row gives the cell of each column name; a cell is null
  (\<open>None\<close>) or holds a value, kept as the string the engine compares and trims.
\<close>

type_synonym cell = "ustring option"

type_synonym row = "ustring \<Rightarrow> cell"

record dataframe =
  columns :: "ustring list"
  rows :: "row list"

text \<open>
  A workbook is what is read at the path: the sheet names in workbook order and, for a
  sheet name, what lines 143 to 155 leave in \<open>df_spark_raw\<close>: the exception that
  \<open>pd.read_excel\<close> or \<open>spark.createDataFrame\<close> raises, or the frame that the engine holds
  after the conversion. How a cell of the spreadsheet becomes a cell of that frame is the
  work of the two libraries and of the session's configuration (an empty cell of the
  sheet may arrive as a null, as a not-a-number value or as the text \<open>NaN\<close>); the model
  starts from the converted frame and does not say which. \<open>None\<close> for the workbook
  stands for a path at which \<open>binaryFiles(...).take(1)\<close> finds nothing.
\<close>

record workbook =
  sheetnames :: "ustring list"
  sheets :: "ustring \<Rightarrow> py_exception + dataframe"

text \<open>
  The one refusal of \<open>spark.createDataFrame\<close> that depends on the frame alone is written
  out: it cannot infer a schema from a sheet with no data row and raises, so a frame
  without rows is never what line 155 returns.
\<close>

definition createDataFrame :: "dataframe \<Rightarrow> py_exception + dataframe" where
  "createDataFrame df =
     (if rows df = [] then Inl (ValueError [Text ''can not infer schema from empty dataset''])
      else Inr df)"

section \<open>NameResolver: \<open>find_resilient_sheet_name\<close>, \<open>get_resilient_column_names\<close>\<close>

text \<open>The loop over \<open>available_sheet_names\<close>, which returns at the first match.\<close>

fun first_matching_sheet :: "(ustring \<Rightarrow> ustring) \<Rightarrow> ustring \<Rightarrow> ustring list \<Rightarrow> ustring option" where
  "first_matching_sheet nfkd normalized_target_prefix [] = None"
| "first_matching_sheet nfkd normalized_target_prefix (sheet_name_original # rest) =
     (let normalized_current_sheet = normalize_text_for_matching nfkd sheet_name_original
      in if startswith normalized_current_sheet normalized_target_prefix
         then Some sheet_name_original
         else first_matching_sheet nfkd normalized_target_prefix rest)"

text \<open>The body of the \<open>try\<close> block: both of its \<open>raise\<close> statements are results.\<close>

definition enumerate_and_match ::
    "(ustring \<Rightarrow> ustring) \<Rightarrow> workbook option \<Rightarrow> ustring \<Rightarrow> ustring \<Rightarrow> ustring
      \<Rightarrow> py_exception + ustring" where
  "enumerate_and_match nfkd file hdfs_excel_path target_prefix_raw normalized_target_prefix =
     (case file of
        None \<Rightarrow>
          Inl (FileNotFoundError
                 [Text ''Excel file not found or empty at HDFS path: '', Str hdfs_excel_path])
      | Some wb \<Rightarrow>
          (case first_matching_sheet nfkd normalized_target_prefix (sheetnames wb) of
             Some sheet_name_original \<Rightarrow> Inr sheet_name_original
           | None \<Rightarrow>
               Inl (ValueError
                      [Text (''No sheet found starting with '' @ sq), Str target_prefix_raw,
                       Text (sq @ '' (normalized: '' @ sq), Str normalized_target_prefix,
                       Text (sq @ '') in Excel file '' @ sq), Str hdfs_excel_path,
                       Text (sq @ ''. Available sheets: ''), StrList (sheetnames wb)])))"

text \<open>
  The function: the \<open>except Exception\<close> handler wraps whatever the body raised in a new
  \<open>Exception\<close> whose message ends with the message of the original one.
\<close>

definition find_resilient_sheet_name ::
    "(ustring \<Rightarrow> ustring) \<Rightarrow> workbook option \<Rightarrow> ustring \<Rightarrow> ustring \<Rightarrow> py_exception + ustring" where
  "find_resilient_sheet_name nfkd file hdfs_excel_path target_prefix_raw =
     (let normalized_target_prefix = normalize_text_for_matching nfkd target_prefix_raw
      in case enumerate_and_match nfkd file hdfs_excel_path target_prefix_raw
                normalized_target_prefix of
           Inr sheet_name_original \<Rightarrow> Inr sheet_name_original
         | Inl e \<Rightarrow>
             Inl (Exception
                    ([Text (''Could not enumerate sheets from Excel file '' @ sq),
                      Str hdfs_excel_path, Text (sq @ ''. Original error: '')]
                     @ exc_message e)))"

text \<open>
  \<open>get_resilient_column_names\<close>: the inner loop over \<open>actual_columns\<close> for one normalized
  prefix, and the outer loop over the normalized prefixes. \<open>selected_original_cols\<close> is
  the list both loops append to. The inner loop has no \<open>break\<close>.
\<close>

fun scan_columns :: "(ustring \<Rightarrow> ustring) \<Rightarrow> ustring \<Rightarrow> ustring list \<Rightarrow> ustring list \<Rightarrow> ustring list" where
  "scan_columns nfkd norm_prefix [] selected_original_cols = selected_original_cols"
| "scan_columns nfkd norm_prefix (actual_col_original # rest) selected_original_cols =
     (let normalized_actual_col = normalize_text_for_matching nfkd actual_col_original
      in scan_columns nfkd norm_prefix rest
           (if startswith normalized_actual_col norm_prefix
            then (if actual_col_original \<notin> set selected_original_cols
                  then selected_original_cols @ [actual_col_original]
                  else selected_original_cols)
            else selected_original_cols))"

fun scan_prefixes :: "(ustring \<Rightarrow> ustring) \<Rightarrow> ustring list \<Rightarrow> ustring list \<Rightarrow> ustring list \<Rightarrow> ustring list" where
  "scan_prefixes nfkd [] actual_columns selected_original_cols = selected_original_cols"
| "scan_prefixes nfkd (norm_prefix # rest) actual_columns selected_original_cols =
     scan_prefixes nfkd rest actual_columns
       (scan_columns nfkd norm_prefix actual_columns selected_original_cols)"

definition get_resilient_column_names ::
    "(ustring \<Rightarrow> ustring) \<Rightarrow> ustring list \<Rightarrow> ustring list \<Rightarrow> ustring list" where
  "get_resilient_column_names nfkd actual_columns target_prefixes_raw =
     (let normalized_target_prefixes = map (normalize_text_for_matching nfkd) target_prefixes_raw
      in scan_prefixes nfkd normalized_target_prefixes actual_columns [])"

text \<open>
  The reading of a list that keeps the first occurrence of every element, in order; the
  result of \<open>get_resilient_column_names\<close> is compared with it below.
\<close>

fun first_occurrences :: "'a list \<Rightarrow> 'a list" where
  "first_occurrences [] = []"
| "first_occurrences (x # xs) = x # first_occurrences (removeAll x xs)"

definition matches_prefix :: "(ustring \<Rightarrow> ustring) \<Rightarrow> ustring \<Rightarrow> ustring \<Rightarrow> bool" where
  "matches_prefix nfkd target_prefix_raw candidate =
     startswith (normalize_text_for_matching nfkd candidate)
                (normalize_text_for_matching nfkd target_prefix_raw)"

section \<open>FlagColumnHeuristic: \<open>find_flag_columns_for_aggregation\<close>\<close>

text \<open>The nested normalizer: no guard for empty text, and only U+0020 is removed.\<close>

definition normalize_for_substring_search :: "(ustring \<Rightarrow> ustring) \<Rightarrow> ustring \<Rightarrow> ustring" where
  "normalize_for_substring_search nfkd text =
     (let nfkd_form = nfkd text;
          only_ascii = encode_ascii_ignore nfkd_form
      in filter (\<lambda>c. c \<noteq> 32) (lower only_ascii))"

text \<open>Python's truth value of an \<open>Optional[str]\<close>: \<open>None\<close> and \<open>""\<close> are false.\<close>

fun truthy :: "ustring option \<Rightarrow> bool" where
  "truthy None = False"
| "truthy (Some s) = (s \<noteq> [])"

text \<open>
  The loop over \<open>actual_columns\<close>, with \<open>col_flag_name\<close> as its state. It runs to the end
  of the list; \<open>and not col_flag_name\<close> is what keeps an earlier choice.
\<close>

fun flag_loop ::
    "(ustring \<Rightarrow> ustring) \<Rightarrow> ustring \<Rightarrow> ustring \<Rightarrow> ustring \<Rightarrow> ustring list \<Rightarrow> ustring option
      \<Rightarrow> ustring option" where
  "flag_loop nfkd norm_marker1 norm_marker2 norm_flag_prefix [] col_flag_name = col_flag_name"
| "flag_loop nfkd norm_marker1 norm_marker2 norm_flag_prefix (col_name # rest) col_flag_name =
     (let norm_col_full = normalize_text_for_matching nfkd col_name;
          norm_col_substring = normalize_for_substring_search nfkd col_name
      in flag_loop nfkd norm_marker1 norm_marker2 norm_flag_prefix rest
           (if startswith norm_col_full norm_flag_prefix
            then (if (contains norm_col_substring norm_marker1
                      \<or> contains norm_col_substring norm_marker2)
                     \<and> \<not> truthy col_flag_name
                  then Some col_name
                  else col_flag_name)
            else col_flag_name))"

definition find_flag_columns_for_aggregation ::
    "(ustring \<Rightarrow> ustring) \<Rightarrow> ustring list \<Rightarrow> ustring option" where
  "find_flag_columns_for_aggregation nfkd actual_columns =
     (let norm_marker1 = normalize_for_substring_search nfkd (ustr ''marker1'');
          norm_marker2 = normalize_for_substring_search nfkd (ustr ''marker2'');
          norm_flag_prefix = normalize_text_for_matching nfkd (ustr ''flag'')
      in flag_loop nfkd norm_marker1 norm_marker2 norm_flag_prefix actual_columns None)"

text \<open>The two tests of the heuristic on one header, in the words of its description.\<close>

definition qualifies :: "(ustring \<Rightarrow> ustring) \<Rightarrow> ustring \<Rightarrow> bool" where
  "qualifies nfkd header =
     (startswith (normalize_text_for_matching nfkd header)
                 (normalize_text_for_matching nfkd (ustr ''flag''))
      \<and> (contains (normalize_for_substring_search nfkd header) (ustr ''marker1'')
         \<or> contains (normalize_for_substring_search nfkd header) (ustr ''marker2'')))"

text \<open>
  \<open>x\<close> is the first element of \<open>xs\<close> that satisfies \<open>P\<close>: it satisfies \<open>P\<close> and nothing before
  it does.
\<close>

definition first_such :: "('a \<Rightarrow> bool) \<Rightarrow> 'a list \<Rightarrow> 'a \<Rightarrow> bool" where
  "first_such P xs x = (\<exists>before after. xs = before @ x # after \<and> P x \<and> (\<forall>y\<in>set before. \<not> P y))"

text \<open>The step of a loop that appends a name unless the list already has it.\<close>

definition snoc_new :: "'a list \<Rightarrow> 'a \<Rightarrow> 'a list" where
  "snoc_new selected c = (if c \<in> set selected then selected else selected @ [c])"

section \<open>IngestionPipeline: the first part of \<open>process_excel\<close>\<close>

text \<open>
  \<open>F.trim\<close> is the engine's \<open>trim\<close>: it removes the space character U+0020 from both
  ends of the value, and no other character.
\<close>

definition trim :: "ustring \<Rightarrow> ustring" where
  "trim v = rev (dropWhile (\<lambda>c. c = 32) (rev (dropWhile (\<lambda>c. c = 32) v)))"

text \<open>
  The predicate of \<open>df_spark_raw.filter\<close>: \<open>isNotNull() & (trim(col) != "")\<close>. On a null
  cell the conjunction is false, and the row is dropped.
\<close>

definition valid_row :: "ustring \<Rightarrow> row \<Rightarrow> bool" where
  "valid_row actual_column_a_for_filter r =
     (case r actual_column_a_for_filter of
        None \<Rightarrow> False
      | Some v \<Rightarrow> trim v \<noteq> [])"

text \<open>
  \<open>quote_column_if_needed\<close>. The class \<open>[\s\(\)-]\<close> is searched in the header as it is, so
  \<open>\s\<close> is the whole Unicode class here: the ASCII whitespace and the code points
  U+0085, U+00A0, U+1680, U+2000..U+200A, U+2028, U+2029, U+202F, U+205F, U+3000.
\<close>

definition is_unicode_whitespace :: "nat \<Rightarrow> bool" where
  "is_unicode_whitespace c =
     (is_whitespace c \<or> c = 133 \<or> c = 160 \<or> c = 5760 \<or> (8192 \<le> c \<and> c \<le> 8202)
      \<or> c = 8232 \<or> c = 8233 \<or> c = 8239 \<or> c = 8287 \<or> c = 12288)"

definition endswith :: "ustring \<Rightarrow> ustring \<Rightarrow> bool" where
  "endswith s p = suffix p s"

definition quote_column_if_needed :: "ustring \<Rightarrow> ustring" where
  "quote_column_if_needed col_name =
     (if list_ex (\<lambda>c. is_unicode_whitespace c \<or> c = 40 \<or> c = 41 \<or> c = 45) col_name
         \<and> \<not> (startswith col_name [96] \<and> endswith col_name [96])
      then [96] @ col_name @ [96]
      else col_name)"

text \<open>
  \<open>F.col(reference)\<close> is resolved by the engine against the header of the frame when the
  expression is used in \<open>filter\<close>, \<open>select\<close> or \<open>agg\<close>: it denotes one column, or the
  engine raises an \<open>AnalysisException\<close> (a dot or a backtick in an unquoted reference,
  an ambiguous or unknown name). The engine's resolution is the field \<open>col\<close> of the
  environment below; \<open>column_reference\<close> turns its answer into a result, keeping of
  the engine's message the reference only.
\<close>

definition column_reference :: "(ustring \<Rightarrow> ustring option) \<Rightarrow> ustring \<Rightarrow> py_exception + ustring" where
  "column_reference resolve reference =
     (case resolve reference of
        None \<Rightarrow> Inl (AnalysisException [Str reference])
      | Some column \<Rightarrow> Inr column)"

text \<open>
  \<open>select\<close> with aliases: the references are resolved in order, and the table has the
  aliased names, each row holding the cells of the resolved columns in that order.
  \<open>F.count(col)\<close> counts the rows whose cell is not null.
\<close>

record table =
  schema :: "ustring list"
  data :: "cell list list"

definition select_expressions ::
    "ustring \<Rightarrow> ustring \<Rightarrow> ustring option \<Rightarrow> (ustring \<times> ustring) list" where
  "select_expressions actual_column_a_for_select actual_column_b actual_flag_col =
     [(quote_column_if_needed actual_column_a_for_select, ustr ''column_a''),
      (quote_column_if_needed actual_column_b, ustr ''column_b'')]
     @ (case actual_flag_col of
          None \<Rightarrow> []
        | Some flag_col \<Rightarrow>
            if truthy actual_flag_col
            then [(quote_column_if_needed flag_col, ustr ''flag'')] else [])"

fun resolve_expressions ::
    "(ustring \<Rightarrow> ustring option) \<Rightarrow> (ustring \<times> ustring) list
      \<Rightarrow> py_exception + (ustring \<times> ustring) list" where
  "resolve_expressions resolve [] = Inr []"
| "resolve_expressions resolve (e # rest) =
     (case column_reference resolve (fst e) of
        Inl err \<Rightarrow> Inl err
      | Inr column \<Rightarrow>
          (case resolve_expressions resolve rest of
             Inl err \<Rightarrow> Inl err
           | Inr resolved \<Rightarrow> Inr ((column, snd e) # resolved)))"

definition select :: "(ustring \<times> ustring) list \<Rightarrow> row list \<Rightarrow> table" where
  "select exprs rs =
     \<lparr>schema = map snd exprs, data = map (\<lambda>r. map (\<lambda>e. r (fst e)) exprs) rs\<rparr>"

definition count_non_null :: "ustring \<Rightarrow> row list \<Rightarrow> int" where
  "count_non_null col rs = int (length (filter (\<lambda>r. r col \<noteq> None) rs))"

text \<open>
  Lines 206 to 213: the count stays zero unless there are valid rows and a flag column;
  then it is the engine's count of the non-null cells of the column that the reference
  to the flag column denotes.
\<close>

definition compute_flagged_line_count ::
    "(ustring \<Rightarrow> ustring option) \<Rightarrow> row list \<Rightarrow> ustring option \<Rightarrow> py_exception + int" where
  "compute_flagged_line_count resolve valid_rows actual_flag_col =
     (case actual_flag_col of
        None \<Rightarrow> Inr 0
      | Some flag_col \<Rightarrow>
          if length valid_rows > 0 \<and> truthy actual_flag_col
          then (case column_reference resolve (quote_column_if_needed flag_col) of
                  Inl err \<Rightarrow> Inl err
                | Inr column \<Rightarrow> Inr (count_non_null column valid_rows))
          else Inr 0)"

text \<open>\<open>os.path.basename\<close> of a POSIX path: what follows the last slash.\<close>

definition basename :: "ustring \<Rightarrow> ustring" where
  "basename p = rev (takeWhile (\<lambda>c. c \<noteq> 47) (rev p))"

text \<open>
  The audit table holds the records the program writes; the catalog is the two tables,
  each absent until first written.
\<close>

record history_record =
  filename :: ustring
  processing_timestamp :: ustring
  flagged_line_count :: int

record catalog =
  intermediate_table :: "table option"
  history_table :: "history_record list option"

text \<open>
  What \<open>spark.sql(...).collect()\<close> gives for the query on the audit table: an exception,
  or the list of the selected rows \<open>(filename, flagged_line_count)\<close>.
\<close>

datatype sql_result = SqlError | Collected "(ustring \<times> int) list"

text \<open>
  What one run is given from outside: the content at the path, the engine's resolution
  of a column reference against a header, the wall-clock time as \<open>strftime\<close> prints it,
  and the answer of the engine to the query on the audit table.
\<close>

record environment =
  hdfs :: "workbook option"
  col :: "ustring list \<Rightarrow> ustring \<Rightarrow> ustring option"
  clock :: ustring
  latest_history :: sql_result

text \<open>
  Lines 131 to 228 of \<open>process_excel\<close>: resolve the sheet, load it, filter the rows,
  resolve the columns, overwrite the intermediate table and compute the candidate
  record. Each \<open>raise\<close> of the source is a result, and so is each exception of the
  engine on a column reference and on a sheet without rows; in the model no table has
  been written when one happens. A failure of the engine while it writes a table is not
  modelled.
\<close>

definition ingest ::
    "(ustring \<Rightarrow> ustring) \<Rightarrow> environment \<Rightarrow> ustring \<Rightarrow> catalog
      \<Rightarrow> py_exception + (catalog \<times> history_record)" where
  "ingest nfkd env hdfs_excel_path st =
     (case find_resilient_sheet_name nfkd (hdfs env) hdfs_excel_path
             (ustr ''sheet_prefix_to_find'') of
        Inl e \<Rightarrow> Inl e
      | Inr excel_sheet_name \<Rightarrow>
     (case hdfs env of
        None \<Rightarrow>
          Inl (FileNotFoundError
                 [Text ''Excel file not found or empty at HDFS path: '', Str hdfs_excel_path])
      | Some wb \<Rightarrow>
     (case sheets wb excel_sheet_name of
        Inl e \<Rightarrow> Inl e
      | Inr df_converted \<Rightarrow>
     (case createDataFrame df_converted of
        Inl e \<Rightarrow> Inl e
      | Inr df_spark_raw \<Rightarrow>
     (case get_resilient_column_names nfkd (columns df_spark_raw) [ustr ''column_a''] of
        [] \<Rightarrow>
          Inl (ValueError
                 [Text (''Column '' @ sq @ ''column_a'' @ sq @ '' not found in headers: ''),
                  StrList (columns df_spark_raw)])
      | actual_column_a_for_filter # _ \<Rightarrow>
     (case column_reference (col env (columns df_spark_raw))
             (quote_column_if_needed actual_column_a_for_filter) of
        Inl e \<Rightarrow> Inl e
      | Inr filter_column \<Rightarrow>
     (let df_spark = df_spark_raw\<lparr>rows := filter (valid_row filter_column)
                                              (rows df_spark_raw)\<rparr>;
          actual_column_a_for_select = actual_column_a_for_filter
      in case get_resilient_column_names nfkd (columns df_spark_raw) [ustr ''column_b''] of
        [] \<Rightarrow>
          Inl (ValueError
                 [Text (''Column '' @ sq @ ''column_b'' @ sq @ '' not found in headers: ''),
                  StrList (columns df_spark_raw)])
      | actual_column_b # _ \<Rightarrow>
     (let actual_flag_col = find_flag_columns_for_aggregation nfkd (columns df_spark)
      in case resolve_expressions (col env (columns df_spark))
                (select_expressions actual_column_a_for_select actual_column_b
                   actual_flag_col) of
        Inl e \<Rightarrow> Inl e
      | Inr resolved \<Rightarrow>
     (let df_for_hive_intermediate = select resolved (rows df_spark);
          st1 = st\<lparr>intermediate_table := Some df_for_hive_intermediate\<rparr>;
          excel_file_name_only = basename hdfs_excel_path;
          processing_timestamp_str = clock env
      in case compute_flagged_line_count (col env (columns df_spark)) (rows df_spark)
                actual_flag_col of
        Inl e \<Rightarrow> Inl e
      | Inr flagged_lines \<Rightarrow>
          Inr (st1, \<lparr>filename = excel_file_name_only,
                     processing_timestamp = processing_timestamp_str,
                     flagged_line_count = flagged_lines\<rparr>))))))))))"

section \<open>HistoryGate: the second part of \<open>process_excel\<close>\<close>

datatype outcome = Failed py_exception | Appended | Skipped

text \<open>
  Lines 230 to 261: \<open>last_record_changed\<close> starts true, and only a non-empty answer whose
  first row equals the candidate in both fields makes it false; the \<open>except\<close> branch
  sets it to true. \<open>write.mode('append').saveAsTable\<close> adds the one record, creating
  the table when it does not exist.
\<close>

definition history_gate :: "sql_result \<Rightarrow> history_record \<Rightarrow> catalog \<Rightarrow> outcome \<times> catalog" where
  "history_gate latest_history_row candidate st =
     (let last_record_changed =
            (case latest_history_row of
               SqlError \<Rightarrow> True
             | Collected [] \<Rightarrow> True
             | Collected (last_record # _) \<Rightarrow>
                 if filename candidate = fst last_record
                    \<and> flagged_line_count candidate = snd last_record
                 then False else True)
      in if last_record_changed
         then (Appended,
               st\<lparr>history_table :=
                    Some ((case history_table st of None \<Rightarrow> [] | Some recs \<Rightarrow> recs)
                          @ [candidate])\<rparr>)
         else (Skipped, st))"

definition process_excel ::
    "(ustring \<Rightarrow> ustring) \<Rightarrow> environment \<Rightarrow> ustring \<Rightarrow> catalog \<Rightarrow> outcome \<times> catalog" where
  "process_excel nfkd env hdfs_excel_path st =
     (case ingest nfkd env hdfs_excel_path st of
        Inl e \<Rightarrow> (Failed e, st)
      | Inr (st1, candidate) \<Rightarrow> history_gate (latest_history env) candidate st1)"

text \<open>
  The query \<open>SELECT filename, flagged_line_count ... ORDER BY processing_timestamp DESC
  LIMIT 1\<close> against a state of the audit table. Timestamps are strings and are compared
  as such, code point by code point. The query may fail on any table (unreadable), and
  fails when there is none; on an empty table it collects no row; otherwise it collects
  the two fields of one record whose timestamp no other record exceeds. Which one, among
  records of the same minute, is the engine's choice.
\<close>

fun str_le :: "ustring \<Rightarrow> ustring \<Rightarrow> bool" where
  "str_le [] t = True"
| "str_le (a # s) [] = False"
| "str_le (a # s) (b # t) = (a < b \<or> (a = b \<and> str_le s t))"

definition is_latest :: "history_record list \<Rightarrow> history_record \<Rightarrow> bool" where
  "is_latest recs r =
     (r \<in> set recs
      \<and> list_all (\<lambda>r'. str_le (processing_timestamp r') (processing_timestamp r)) recs)"

definition answers_query :: "history_record list option \<Rightarrow> sql_result \<Rightarrow> bool" where
  "answers_query tbl res =
     (case res of
        SqlError \<Rightarrow> True
      | Collected rs \<Rightarrow>
          (case tbl of
             None \<Rightarrow> False
           | Some recs \<Rightarrow>
               if recs = [] then rs = []
               else list_ex (\<lambda>r. is_latest recs r
                                  \<and> rs = [(filename r, flagged_line_count r)]) recs))"

section \<open>A sample run\<close>

text \<open>
  Concrete inputs on which the model is run below. \<open>sample_col\<close> is an excerpt of the
  engine's resolution: a reference in backticks denotes the name between them, another
  reference denotes itself unless it has a dot, and in both cases only a name without
  backtick that the header has. \<open>sample_frame\<close> is a frame as the engine holds it, with
  five rows: the second has spaces in its first column and the fifth a null there; the
  third has a null flag cell, and the fourth holds the text \<open>NaN\<close> twice.
\<close>

definition sample_col :: "ustring list \<Rightarrow> ustring \<Rightarrow> ustring option" where
  "sample_col header reference =
     (let quoted = (2 \<le> length reference \<and> hd reference = 96 \<and> last reference = 96);
          name = (if quoted then butlast (tl reference) else reference)
      in if 96 \<notin> set name \<and> (quoted \<or> 46 \<notin> set name) \<and> name \<in> set header
         then Some name else None)"

definition row_of :: "(ustring \<times> cell) list \<Rightarrow> row" where
  "row_of cells c = (case map_of cells c of None \<Rightarrow> None | Some v \<Rightarrow> v)"

definition sample_frame :: dataframe where
  "sample_frame =
     \<lparr>columns = [ustr ''Column_A Name'', ustr ''Column_B (code)'', ustr ''Flag Marker1''],
      rows = [row_of [(ustr ''Column_A Name'', Some (ustr ''A1'')),
                      (ustr ''Column_B (code)'', Some (ustr ''b1'')),
                      (ustr ''Flag Marker1'', Some (ustr ''x''))],
              row_of [(ustr ''Column_A Name'', Some (ustr ''   '')),
                      (ustr ''Column_B (code)'', Some (ustr ''b2'')),
                      (ustr ''Flag Marker1'', Some (ustr ''y''))],
              row_of [(ustr ''Column_A Name'', Some (ustr ''A3'')),
                      (ustr ''Column_B (code)'', Some (ustr ''b3'')),
                      (ustr ''Flag Marker1'', None)],
              row_of [(ustr ''Column_A Name'', Some (ustr ''NaN'')),
                      (ustr ''Column_B (code)'', Some (ustr ''b4'')),
                      (ustr ''Flag Marker1'', Some (ustr ''NaN''))],
              row_of [(ustr ''Column_A Name'', None),
                      (ustr ''Column_B (code)'', Some (ustr ''b5'')),
                      (ustr ''Flag Marker1'', Some (ustr ''z''))]]\<rparr>"

definition sample_workbook :: workbook where
  "sample_workbook =
     \<lparr>sheetnames = [ustr ''Notes'', ustr ''Sheet_Prefix_To_Find - March''],
      sheets = (\<lambda>n. Inr sample_frame)\<rparr>"

definition sample_env :: "sql_result \<Rightarrow> environment" where
  "sample_env answer =
     \<lparr>hdfs = Some sample_workbook, col = sample_col,
      clock = ustr ''2024-03-01 10:15'', latest_history = answer\<rparr>"

definition empty_catalog :: catalog where
  "empty_catalog = \<lparr>intermediate_table = None, history_table = None\<rparr>"

definition sample_history :: "history_record list" where
  "sample_history =
     [\<lparr>filename = ustr ''q0.xlsx'', processing_timestamp = ustr ''2024-01-05 09:30'',
       flagged_line_count = 7\<rparr>,
      \<lparr>filename = ustr ''q1.xlsx'', processing_timestamp = ustr ''2024-02-01 08:00'',
       flagged_line_count = 2\<rparr>]"

definition sample_catalog :: catalog where
  "sample_catalog = \<lparr>intermediate_table = None, history_table = Some sample_history\<rparr>"

definition frame_of :: "ustring list \<Rightarrow> dataframe" where
  "frame_of header =
     \<lparr>columns = header, rows = [row_of (map (\<lambda>name. (name, Some (ustr ''v''))) header)]\<rparr>"

definition env_of :: "ustring list \<Rightarrow> dataframe \<Rightarrow> environment" where
  "env_of names frame =
     \<lparr>hdfs = Some \<lparr>sheetnames = names, sheets = (\<lambda>n. Inr frame)\<rparr>, col = sample_col,
      clock = ustr ''2024-03-01 10:15'', latest_history = SqlError\<rparr>"

section \<open>Properties of the normalizer\<close>

lemma nfkd_sample_fixes_ascii: "nfkd_fixes_ascii nfkd_sample"
proof -
  have "list_all is_ascii s \<Longrightarrow> concat (map decompose_sample s) = s" for s
    by (induction s) (auto simp: is_ascii_def)
  then show ?thesis
    by (simp add: nfkd_fixes_ascii_def nfkd_sample_def)
qed

lemma lower_char_ascii: "is_ascii c \<Longrightarrow> is_ascii (lower_char c)"
  by (auto simp: is_ascii_def lower_char_def)

lemma lower_char_idem: "lower_char (lower_char c) = lower_char c"
  by (auto simp: lower_char_def)

lemma normalize_ascii: "list_all is_ascii (normalize_text_for_matching nfkd text)"
  by (auto simp: normalize_text_for_matching_def Let_def remove_whitespace_def lower_def
      encode_ascii_ignore_def list_all_iff lower_char_ascii)

lemma normalize_lowered:
  "c \<in> set (normalize_text_for_matching nfkd text) \<Longrightarrow> lower_char c = c"
  by (auto simp: normalize_text_for_matching_def Let_def remove_whitespace_def lower_def
      encode_ascii_ignore_def lower_char_idem split: if_splits)

lemma normalize_no_whitespace:
  "c \<in> set (normalize_text_for_matching nfkd text) \<Longrightarrow> \<not> is_whitespace c"
  by (auto simp: normalize_text_for_matching_def Let_def remove_whitespace_def
      split: if_splits)

lemma normalize_fixed:
  assumes fx: "nfkd_fixes_ascii nfkd"
    and asc: "list_all is_ascii s"
    and low: "\<forall>c\<in>set s. lower_char c = c"
    and nws: "\<forall>c\<in>set s. \<not> is_whitespace c"
  shows "normalize_text_for_matching nfkd s = s"
proof (cases "s = []")
  case True
  then show ?thesis by (simp add: normalize_text_for_matching_def)
next
  case False
  from fx asc have "nfkd s = s"
    by (simp add: nfkd_fixes_ascii_def)
  moreover from asc have "encode_ascii_ignore s = s"
    by (simp add: encode_ascii_ignore_def list_all_iff)
  moreover from low have "lower s = s"
    by (simp add: lower_def map_idI)
  moreover from nws have "remove_whitespace s = s"
    by (simp add: remove_whitespace_def)
  ultimately show ?thesis
    using False by (simp add: normalize_text_for_matching_def Let_def)
qed

lemmas normalizer_eval =
  ustr_def normalize_text_for_matching_def nfkd_sample_def encode_ascii_ignore_def
  is_ascii_def lower_def lower_char_def remove_whitespace_def is_whitespace_def

text \<open>
  C9. Normalizing is idempotent: for every text \<open>x\<close>, normalizing the normalized key
  gives the key again. The key is ASCII, lower-case and free of whitespace, so the
  second pass finds nothing to change, given that NFKD leaves ASCII text alone.
\<close>

theorem normalize_idempotent:
  assumes "nfkd_fixes_ascii nfkd"
  shows "normalize_text_for_matching nfkd (normalize_text_for_matching nfkd x)
           = normalize_text_for_matching nfkd x"
proof (rule normalize_fixed [OF assms])
  show "list_all is_ascii (normalize_text_for_matching nfkd x)"
    by (rule normalize_ascii)
  show "\<forall>c\<in>set (normalize_text_for_matching nfkd x). lower_char c = c"
    using normalize_lowered by blast
  show "\<forall>c\<in>set (normalize_text_for_matching nfkd x). \<not> is_whitespace c"
    using normalize_no_whitespace by blast
qed

theorem normalize_idempotent_witness:
  "nfkd_fixes_ascii nfkd_sample
   \<and> normalize_text_for_matching nfkd_sample [201, 116, 233, 32, 9, 64257, 78] = ustr ''etefin''
   \<and> normalize_text_for_matching nfkd_sample
        (normalize_text_for_matching nfkd_sample [201, 116, 233, 32, 9, 64257, 78])
       = normalize_text_for_matching nfkd_sample [201, 116, 233, 32, 9, 64257, 78]"
proof (intro conjI)
  show "nfkd_fixes_ascii nfkd_sample"
    by (rule nfkd_sample_fixes_ascii)
  show "normalize_text_for_matching nfkd_sample [201, 116, 233, 32, 9, 64257, 78]
          = ustr ''etefin''"
    by (simp add: normalizer_eval)
  show "normalize_text_for_matching nfkd_sample
          (normalize_text_for_matching nfkd_sample [201, 116, 233, 32, 9, 64257, 78])
        = normalize_text_for_matching nfkd_sample [201, 116, 233, 32, 9, 64257, 78]"
    by (rule normalize_idempotent [OF nfkd_sample_fixes_ascii])
qed


section \<open>Properties of the resolvers\<close>

lemma find_first_such: "(find P xs = Some x) = first_such P xs x"
proof (induction xs)
  case Nil
  show ?case by (simp add: first_such_def)
next
  case (Cons a xs)
  show ?case
  proof (cases "P a")
    case True
    have "first_such P (a # xs) x = (x = a)"
    proof
      assume "first_such P (a # xs) x"
      then obtain before after where
        e: "a # xs = before @ x # after" and n: "\<forall>y\<in>set before. \<not> P y"
        by (auto simp: first_such_def)
      show "x = a"
      proof (cases before)
        case Nil
        with e show ?thesis by simp
      next
        case (Cons b bs)
        with e n True show ?thesis by simp
      qed
    next
      assume "x = a"
      with True have "a # xs = [] @ x # xs \<and> P x \<and> (\<forall>y\<in>set []. \<not> P y)" by simp
      then show "first_such P (a # xs) x" unfolding first_such_def by blast
    qed
    with True show ?thesis by auto
  next
    case False
    have "first_such P (a # xs) x = first_such P xs x"
    proof
      assume "first_such P (a # xs) x"
      then obtain before after where
        e: "a # xs = before @ x # after" and px: "P x" and n: "\<forall>y\<in>set before. \<not> P y"
        by (auto simp: first_such_def)
      show "first_such P xs x"
      proof (cases before)
        case Nil
        with e px False show ?thesis by simp
      next
        case (Cons b bs)
        with e n px have "xs = bs @ x # after \<and> P x \<and> (\<forall>y\<in>set bs. \<not> P y)" by simp
        then show ?thesis unfolding first_such_def by blast
      qed
    next
      assume "first_such P xs x"
      then obtain before after where
        "xs = before @ x # after" "P x" "\<forall>y\<in>set before. \<not> P y"
        by (auto simp: first_such_def)
      with False have "a # xs = (a # before) @ x # after \<and> P x \<and> (\<forall>y\<in>set (a # before). \<not> P y)"
        by simp
      then show "first_such P (a # xs) x" unfolding first_such_def by blast
    qed
    with False Cons.IH show ?thesis by simp
  qed
qed

lemma first_matching_sheet_find:
  "first_matching_sheet nfkd np xs = find (\<lambda>s. startswith (normalize_text_for_matching nfkd s) np) xs"
  by (induction xs) (simp_all add: Let_def)

lemma sheet_name_result:
  "find_resilient_sheet_name nfkd (Some wb) path target =
     (case find (matches_prefix nfkd target) (sheetnames wb) of
        Some s \<Rightarrow> Inr s
      | None \<Rightarrow> Inl (Exception
          ([Text (''Could not enumerate sheets from Excel file '' @ sq), Str path,
            Text (sq @ ''. Original error: ''),
            Text (''No sheet found starting with '' @ sq), Str target,
            Text (sq @ '' (normalized: '' @ sq), Str (normalize_text_for_matching nfkd target),
            Text (sq @ '') in Excel file '' @ sq), Str path,
            Text (sq @ ''. Available sheets: ''), StrList (sheetnames wb)])))"
proof -
  have "matches_prefix nfkd target = (\<lambda>s. startswith (normalize_text_for_matching nfkd s) (normalize_text_for_matching nfkd target))"
    by (auto simp: matches_prefix_def)
  then show ?thesis
  by (simp add: find_resilient_sheet_name_def enumerate_and_match_def Let_def
      first_matching_sheet_find split: option.splits)
qed

lemma ascii_text_normalized:
  assumes "nfkd_fixes_ascii nfkd" "list_all is_ascii s"
  shows "normalize_text_for_matching nfkd s = remove_whitespace (lower s)"
proof -
  from assms have "nfkd s = s" by (simp add: nfkd_fixes_ascii_def)
  moreover from assms have "encode_ascii_ignore s = s"
    by (simp add: encode_ascii_ignore_def list_all_iff)
  ultimately show ?thesis
    by (simp add: normalize_text_for_matching_def Let_def remove_whitespace_def lower_def)
qed

lemma ascii_text_substring_normalized:
  assumes "nfkd_fixes_ascii nfkd" "list_all is_ascii s"
  shows "normalize_for_substring_search nfkd s = filter (\<lambda>c. c \<noteq> 32) (lower s)"
proof -
  from assms have "nfkd s = s" by (simp add: nfkd_fixes_ascii_def)
  moreover from assms have "encode_ascii_ignore s = s"
    by (simp add: encode_ascii_ignore_def list_all_iff)
  ultimately show ?thesis
    by (simp add: normalize_for_substring_search_def Let_def)
qed

lemmas ascii_eval = ustr_def is_ascii_def lower_def lower_char_def remove_whitespace_def
  is_whitespace_def startswith_def contains_def

lemmas resolver_eval =
  normalizer_eval startswith_def contains_def Let_def sublist_code
  get_resilient_column_names_def find_flag_columns_for_aggregation_def
  normalize_for_substring_search_def

text \<open>
  C6. \<open>resolve_one\<close> (\<open>find_resilient_sheet_name\<close> on a readable workbook) returns a name
  exactly when that name is the first one, in workbook order, whose normalized form
  starts with the normalized target prefix: a prefix test, not equality. With the
  candidates \<open>Flag (old)\<close> and \<open>Flagged v2\<close> and the prefix \<open>flag\<close>, both match and the
  first is returned.
\<close>

theorem resolve_one_first_match:
  "(find_resilient_sheet_name nfkd (Some wb) path target = Inr s
      \<longleftrightarrow> first_such (matches_prefix nfkd target) (sheetnames wb) s)
   \<and> (nfkd_fixes_ascii nfkd \<longrightarrow> sheetnames wb = [ustr ''Flag (old)'', ustr ''Flagged v2'']
        \<longrightarrow> matches_prefix nfkd (ustr ''flag'') (ustr ''Flag (old)'')
          \<and> matches_prefix nfkd (ustr ''flag'') (ustr ''Flagged v2'')
          \<and> find_resilient_sheet_name nfkd (Some wb) path (ustr ''flag'')
              = Inr (ustr ''Flag (old)''))"
proof (intro conjI impI)
  show "find_resilient_sheet_name nfkd (Some wb) path target = Inr s
          \<longleftrightarrow> first_such (matches_prefix nfkd target) (sheetnames wb) s"
    by (simp add: sheet_name_result find_first_such [symmetric] split: option.splits)
next
  assume fx: "nfkd_fixes_ascii nfkd"
  show m1: "matches_prefix nfkd (ustr ''flag'') (ustr ''Flag (old)'')"
    by (simp add: matches_prefix_def ascii_text_normalized [OF fx] ustr_def is_ascii_def)
       (simp add: ascii_eval)
  show "matches_prefix nfkd (ustr ''flag'') (ustr ''Flagged v2'')"
    by (simp add: matches_prefix_def ascii_text_normalized [OF fx] ustr_def is_ascii_def)
       (simp add: ascii_eval)
  assume "sheetnames wb = [ustr ''Flag (old)'', ustr ''Flagged v2'']"
  with m1 show "find_resilient_sheet_name nfkd (Some wb) path (ustr ''flag'')
              = Inr (ustr ''Flag (old)'')"
    by (simp add: sheet_name_result)
qed

theorem resolve_one_first_match_witness:
  "nfkd_fixes_ascii nfkd_sample
   \<and> find_resilient_sheet_name nfkd_sample
        (Some \<lparr>sheetnames = [ustr ''Flag (old)'', ustr ''Flagged v2''],
             sheets = (\<lambda>n. Inr \<lparr>columns = [], rows = []\<rparr>)\<rparr>)
        (ustr ''/in/q1.xlsx'') (ustr ''flag'') = Inr (ustr ''Flag (old)'')
   \<and> first_such (matches_prefix nfkd_sample (ustr ''flag''))
        [ustr ''Flag (old)'', ustr ''Flagged v2''] (ustr ''Flag (old)'')"
proof -
  let ?wb = "\<lparr>sheetnames = [ustr ''Flag (old)'', ustr ''Flagged v2''],
             sheets = (\<lambda>n. Inr \<lparr>columns = [], rows = []\<rparr>)\<rparr>"
  note inst = resolve_one_first_match
    [of nfkd_sample ?wb "ustr ''/in/q1.xlsx''" "ustr ''flag''" "ustr ''Flag (old)''"]
  from inst nfkd_sample_fixes_ascii
  have r: "find_resilient_sheet_name nfkd_sample (Some ?wb) (ustr ''/in/q1.xlsx'')
             (ustr ''flag'') = Inr (ustr ''Flag (old)'')"
    by simp
  with inst have "first_such (matches_prefix nfkd_sample (ustr ''flag''))
        [ustr ''Flag (old)'', ustr ''Flagged v2''] (ustr ''Flag (old)'')"
    by simp
  with r nfkd_sample_fixes_ascii show ?thesis by simp
qed

lemma scan_columns_foldl:
  "scan_columns nfkd np cols sel
     = foldl snoc_new sel (filter (\<lambda>c. startswith (normalize_text_for_matching nfkd c) np) cols)"
  by (induction cols arbitrary: sel) (simp_all add: Let_def snoc_new_def)

lemma scan_prefixes_foldl:
  "scan_prefixes nfkd nps cols sel
     = foldl snoc_new sel
         (concat (map (\<lambda>np. filter (\<lambda>c. startswith (normalize_text_for_matching nfkd c) np) cols) nps))"
  by (induction nps arbitrary: sel) (simp_all add: scan_columns_foldl)

lemma removeAll_filter_conj: "removeAll x (filter P xs) = filter (\<lambda>y. P y \<and> y \<noteq> x) xs"
  by (induction xs) auto

lemma foldl_snoc_new:
  "foldl snoc_new sel xs = sel @ first_occurrences (filter (\<lambda>x. x \<notin> set sel) xs)"
proof (induction xs arbitrary: sel)
  case Nil
  show ?case by simp
next
  case (Cons x xs)
  show ?case
  proof (cases "x \<in> set sel")
    case True
    then have "snoc_new sel x = sel" by (simp add: snoc_new_def)
    with True show ?thesis by (simp add: Cons.IH)
  next
    case False
    then have "snoc_new sel x = sel @ [x]" by (simp add: snoc_new_def)
    moreover have "filter (\<lambda>y. y \<notin> set (sel @ [x])) xs
                     = removeAll x (filter (\<lambda>y. y \<notin> set sel) xs)"
      by (simp add: removeAll_filter_conj conj_commute)
    ultimately show ?thesis using False by (simp add: Cons.IH)
  qed
qed

lemma set_first_occurrences: "set (first_occurrences xs) = set xs"
proof (induction xs rule: first_occurrences.induct)
  case 1
  show ?case by simp
next
  case (2 x xs)
  then show ?case by auto
qed

lemma distinct_first_occurrences: "distinct (first_occurrences xs)"
proof (induction xs rule: first_occurrences.induct)
  case 1
  show ?case by simp
next
  case (2 x xs)
  then show ?case by (simp add: set_first_occurrences)
qed

lemma column_names_result:
  "get_resilient_column_names nfkd cols ps
     = first_occurrences (concat (map (\<lambda>p. filter (matches_prefix nfkd p) cols) ps))"
proof -
  have "(\<lambda>c. startswith (normalize_text_for_matching nfkd c) (normalize_text_for_matching nfkd p))
          = matches_prefix nfkd p" for p
    by (auto simp: matches_prefix_def)
  then show ?thesis
    by (simp add: get_resilient_column_names_def Let_def scan_prefixes_foldl foldl_snoc_new
        map_map comp_def)
qed

text \<open>
  C2, as the code has it. \<open>resolve_many\<close> (\<open>get_resilient_column_names\<close>) goes through the
  prefixes in the order given and, for each, through the candidates in source order; it
  collects every candidate whose normalized form starts with the normalized prefix, not
  only the first, skipping a candidate already collected. So the result is the list of
  first occurrences in the concatenation of the matches of each prefix: it has no
  duplicate, it holds exactly the candidates that match some prefix, and it is empty
  exactly when nothing matches.
\<close>

theorem resolve_many_collects_every_match:
  "get_resilient_column_names nfkd cols ps
     = first_occurrences (concat (map (\<lambda>p. filter (matches_prefix nfkd p) cols) ps))
   \<and> distinct (get_resilient_column_names nfkd cols ps)
   \<and> set (get_resilient_column_names nfkd cols ps)
       = {c \<in> set cols. \<exists>p\<in>set ps. matches_prefix nfkd p c}
   \<and> (get_resilient_column_names nfkd cols ps = []
        \<longleftrightarrow> (\<forall>p\<in>set ps. \<forall>c\<in>set cols. \<not> matches_prefix nfkd p c))"
proof (intro conjI)
  show "get_resilient_column_names nfkd cols ps
     = first_occurrences (concat (map (\<lambda>p. filter (matches_prefix nfkd p) cols) ps))"
    by (rule column_names_result)
  show "distinct (get_resilient_column_names nfkd cols ps)"
    by (simp add: column_names_result distinct_first_occurrences)
  show s: "set (get_resilient_column_names nfkd cols ps)
       = {c \<in> set cols. \<exists>p\<in>set ps. matches_prefix nfkd p c}"
    by (auto simp: column_names_result set_first_occurrences)
  have "get_resilient_column_names nfkd cols ps = []
          \<longleftrightarrow> set (get_resilient_column_names nfkd cols ps) = {}"
    by simp
  also have "\<dots> \<longleftrightarrow> (\<forall>p\<in>set ps. \<forall>c\<in>set cols. \<not> matches_prefix nfkd p c)"
    unfolding s by blast
  finally show "get_resilient_column_names nfkd cols ps = []
        \<longleftrightarrow> (\<forall>p\<in>set ps. \<forall>c\<in>set cols. \<not> matches_prefix nfkd p c)" .
qed

theorem resolve_many_collects_every_match_witness:
  "distinct (get_resilient_column_names nfkd_sample
       [ustr ''Column_A'', ustr ''column a (old)'', ustr ''Column_B'']
       [ustr ''column_a'', ustr ''Column''])
   \<and> get_resilient_column_names nfkd_sample
       [ustr ''Column_A'', ustr ''column a (old)'', ustr ''Column_B'']
       [ustr ''column_a'', ustr ''Column'']
     = [ustr ''Column_A'', ustr ''column a (old)'', ustr ''Column_B'']"
proof -
  have "get_resilient_column_names nfkd_sample
       [ustr ''Column_A'', ustr ''column a (old)'', ustr ''Column_B'']
       [ustr ''column_a'', ustr ''Column'']
     = [ustr ''Column_A'', ustr ''column a (old)'', ustr ''Column_B'']"
    by (simp add: resolver_eval)
  moreover have "distinct (get_resilient_column_names nfkd_sample
       [ustr ''Column_A'', ustr ''column a (old)'', ustr ''Column_B'']
       [ustr ''column_a'', ustr ''Column''])"
    using resolve_many_collects_every_match
      [of nfkd_sample "[ustr ''Column_A'', ustr ''column a (old)'', ustr ''Column_B'']"
          "[ustr ''column_a'', ustr ''Column'']"]
    by blast
  ultimately show ?thesis by blast
qed

text \<open>
  C2, as the claim has it, fails: for the one prefix \<open>column_a\<close> and the headers
  \<open>column_a\<close>, \<open>column_a_old\<close>, both headers are collected, not only the first.
\<close>

theorem resolve_many_first_only_counterexample:
  "get_resilient_column_names nfkd_sample [ustr ''column_a'', ustr ''column_a_old'']
       [ustr ''column_a'']
     = [ustr ''column_a'', ustr ''column_a_old'']"
  by (simp add: resolver_eval)

text \<open>
  C10. When the target prefix normalizes to the empty string, every candidate passes
  the prefix test. The sheet resolver then returns the first sheet name and fails only
  on a workbook with no sheet; the column resolver returns a list that starts with the
  first header (the one its caller takes), and an empty list only for an empty header.
\<close>

theorem empty_prefix_matches_everything:
  assumes "normalize_text_for_matching nfkd target = []"
  shows "(\<forall>c. matches_prefix nfkd target c)
    \<and> (\<forall>c cs. sheetnames wb = c # cs
          \<longrightarrow> find_resilient_sheet_name nfkd (Some wb) path target = Inr c)
    \<and> ((\<exists>e. find_resilient_sheet_name nfkd (Some wb) path target = Inl e)
          \<longleftrightarrow> sheetnames wb = [])
    \<and> (\<forall>c cs. cols = c # cs
          \<longrightarrow> (\<exists>others. get_resilient_column_names nfkd cols [target] = c # others))
    \<and> (get_resilient_column_names nfkd cols [target] = [] \<longleftrightarrow> cols = [])"
proof -
  from assms have m: "matches_prefix nfkd target c" for c
    by (simp add: matches_prefix_def startswith_def)
  then have all: "matches_prefix nfkd target = (\<lambda>c. True)"
    by auto
  have sheet: "find_resilient_sheet_name nfkd (Some wb) path target = Inr c"
    if "sheetnames wb = c # cs" for c cs
    using that by (simp add: sheet_name_result all)
  have fails: "(\<exists>e. find_resilient_sheet_name nfkd (Some wb) path target = Inl e)
          \<longleftrightarrow> sheetnames wb = []"
    by (cases "sheetnames wb") (simp_all add: sheet_name_result all)
  have col: "get_resilient_column_names nfkd xs [target] = first_occurrences xs" for xs
    by (simp add: column_names_result all)
  have hd: "\<exists>others. get_resilient_column_names nfkd cols [target] = c # others"
    if "cols = c # cs" for c cs
    using that col by simp
  have emp: "get_resilient_column_names nfkd cols [target] = [] \<longleftrightarrow> cols = []"
    by (cases cols) (simp_all add: col)
  from m sheet fails hd emp show ?thesis by blast
qed

theorem empty_prefix_matches_everything_witness:
  "normalize_text_for_matching nfkd_sample [32, 9, 769] = []
   \<and> find_resilient_sheet_name nfkd_sample
        (Some \<lparr>sheetnames = [ustr ''Zeta'', ustr ''Alpha''],
               sheets = (\<lambda>n. Inr \<lparr>columns = [], rows = []\<rparr>)\<rparr>)
        (ustr ''/in/q1.xlsx'') [32, 9, 769] = Inr (ustr ''Zeta'')
   \<and> (\<exists>others. get_resilient_column_names nfkd_sample [ustr ''Zeta'', ustr ''Alpha'']
                   [[32, 9, 769]] = ustr ''Zeta'' # others)"
proof -
  have e: "normalize_text_for_matching nfkd_sample [32, 9, 769] = []"
    by (simp add: normalizer_eval)
  note inst = empty_prefix_matches_everything
    [OF e, of "\<lparr>sheetnames = [ustr ''Zeta'', ustr ''Alpha''],
               sheets = (\<lambda>n. Inr \<lparr>columns = [], rows = []\<rparr>)\<rparr>"
        "ustr ''/in/q1.xlsx''" "[ustr ''Zeta'', ustr ''Alpha'']"]
  from inst have "find_resilient_sheet_name nfkd_sample
        (Some \<lparr>sheetnames = [ustr ''Zeta'', ustr ''Alpha''],
               sheets = (\<lambda>n. Inr \<lparr>columns = [], rows = []\<rparr>)\<rparr>)
        (ustr ''/in/q1.xlsx'') [32, 9, 769] = Inr (ustr ''Zeta'')"
    by simp
  moreover from inst have "\<exists>others. get_resilient_column_names nfkd_sample
        [ustr ''Zeta'', ustr ''Alpha''] [[32, 9, 769]] = ustr ''Zeta'' # others"
    by blast
  ultimately show ?thesis using e by blast
qed

lemma flag_loop_find:
  assumes ne: "\<And>c. startswith (normalize_text_for_matching nfkd c) fp
                 \<and> (contains (normalize_for_substring_search nfkd c) m1
                    \<or> contains (normalize_for_substring_search nfkd c) m2) \<Longrightarrow> c \<noteq> []"
  shows "flag_loop nfkd m1 m2 fp cols acc =
           (if truthy acc then acc
            else (case find (\<lambda>c. startswith (normalize_text_for_matching nfkd c) fp
                 \<and> (contains (normalize_for_substring_search nfkd c) m1
                    \<or> contains (normalize_for_substring_search nfkd c) m2)) cols of
                    None \<Rightarrow> acc | Some c \<Rightarrow> Some c))"
proof (induction cols arbitrary: acc)
  case Nil
  show ?case by simp
next
  case (Cons c cols)
  let ?Q = "\<lambda>c. startswith (normalize_text_for_matching nfkd c) fp
                 \<and> (contains (normalize_for_substring_search nfkd c) m1
                    \<or> contains (normalize_for_substring_search nfkd c) m2)"
  show ?case
  proof (cases "?Q c \<and> \<not> truthy acc")
    case True
    then have "c \<noteq> []" using ne by blast
    then have "truthy (Some c)" by simp
    with True show ?thesis by (simp add: Let_def Cons.IH)
  next
    case False
    then have "flag_loop nfkd m1 m2 fp (c # cols) acc = flag_loop nfkd m1 m2 fp cols acc"
      by (auto simp: Let_def)
    with False show ?thesis by (auto simp: Cons.IH)
  qed
qed

lemma ascii_literals:
  assumes "nfkd_fixes_ascii nfkd"
  shows "normalize_text_for_matching nfkd (ustr ''flag'') = ustr ''flag''"
    and "normalize_for_substring_search nfkd (ustr ''marker1'') = ustr ''marker1''"
    and "normalize_for_substring_search nfkd (ustr ''marker2'') = ustr ''marker2''"
    and "normalize_text_for_matching nfkd (ustr ''column_a'') = ustr ''column_a''"
    and "normalize_text_for_matching nfkd (ustr ''column_b'') = ustr ''column_b''"
    and "normalize_text_for_matching nfkd (ustr ''sheet_prefix_to_find'') = ustr ''sheet_prefix_to_find''"
proof -
  show "normalize_text_for_matching nfkd (ustr ''flag'') = ustr ''flag''"
    by (subst ascii_text_normalized [OF assms]) (simp_all add: ascii_eval)
  show "normalize_for_substring_search nfkd (ustr ''marker1'') = ustr ''marker1''"
    by (subst ascii_text_substring_normalized [OF assms]) (simp_all add: ascii_eval)
  show "normalize_for_substring_search nfkd (ustr ''marker2'') = ustr ''marker2''"
    by (subst ascii_text_substring_normalized [OF assms]) (simp_all add: ascii_eval)
  show "normalize_text_for_matching nfkd (ustr ''column_a'') = ustr ''column_a''"
    by (subst ascii_text_normalized [OF assms]) (simp_all add: ascii_eval)
  show "normalize_text_for_matching nfkd (ustr ''column_b'') = ustr ''column_b''"
    by (subst ascii_text_normalized [OF assms]) (simp_all add: ascii_eval)
  show "normalize_text_for_matching nfkd (ustr ''sheet_prefix_to_find'') = ustr ''sheet_prefix_to_find''"
    by (subst ascii_text_normalized [OF assms]) (simp_all add: ascii_eval)
qed

lemma qualifies_nonempty:
  assumes "nfkd_fixes_ascii nfkd" "qualifies nfkd c"
  shows "c \<noteq> []"
proof
  assume "c = []"
  with assms(2) have "startswith [] (normalize_text_for_matching nfkd (ustr ''flag''))"
    by (simp add: qualifies_def normalize_text_for_matching_def)
  then have "startswith [] (ustr ''flag'')"
    by (simp only: ascii_literals(1) [OF assms(1)])
  then show False
    by (simp add: startswith_def ustr_def)
qed

lemma flag_column_result:
  assumes fx: "nfkd_fixes_ascii nfkd"
  shows "find_flag_columns_for_aggregation nfkd headers = find (qualifies nfkd) headers"
proof -
  have q: "(\<lambda>c. startswith (normalize_text_for_matching nfkd c) (ustr ''flag'')
                 \<and> (contains (normalize_for_substring_search nfkd c) (ustr ''marker1'')
                    \<or> contains (normalize_for_substring_search nfkd c) (ustr ''marker2'')))
            = qualifies nfkd"
    by (simp add: fun_eq_iff qualifies_def ascii_literals [OF fx])
  have "flag_loop nfkd (ustr ''marker1'') (ustr ''marker2'') (ustr ''flag'') headers None
          = (if truthy None then None
             else (case find (\<lambda>c. startswith (normalize_text_for_matching nfkd c) (ustr ''flag'')
                 \<and> (contains (normalize_for_substring_search nfkd c) (ustr ''marker1'')
                    \<or> contains (normalize_for_substring_search nfkd c) (ustr ''marker2''))) headers of
                     None \<Rightarrow> None | Some c \<Rightarrow> Some c))"
  proof (rule flag_loop_find)
    fix c
    assume "startswith (normalize_text_for_matching nfkd c) (ustr ''flag'')
                 \<and> (contains (normalize_for_substring_search nfkd c) (ustr ''marker1'')
                    \<or> contains (normalize_for_substring_search nfkd c) (ustr ''marker2''))"
    then have "qualifies nfkd c"
      by (simp add: qualifies_def ascii_literals [OF fx])
    with fx show "c \<noteq> []" by (rule qualifies_nonempty)
  qed
  then show ?thesis
    by (simp add: find_flag_columns_for_aggregation_def Let_def ascii_literals [OF fx] q
        split: option.splits)
qed

text \<open>
  C3. \<open>find_flag_column\<close> (\<open>find_flag_columns_for_aggregation\<close>) returns a header exactly
  when it is the first one, in source order, that qualifies: its full normalized key
  starts with the normalized word \<open>flag\<close> and its looser normalization (spaces only
  removed) contains \<open>marker1\<close> or \<open>marker2\<close>. The result is one header or none, and it is
  none exactly when no header qualifies.
\<close>

theorem find_flag_column_first_qualifying:
  assumes "nfkd_fixes_ascii nfkd"
  shows "(find_flag_columns_for_aggregation nfkd headers = Some h
            \<longleftrightarrow> first_such (qualifies nfkd) headers h)
       \<and> (find_flag_columns_for_aggregation nfkd headers = None
            \<longleftrightarrow> (\<forall>h\<in>set headers. \<not> qualifies nfkd h))"
  by (auto simp: flag_column_result [OF assms] find_first_such find_None_iff)

theorem find_flag_column_first_qualifying_witness:
  "nfkd_fixes_ascii nfkd_sample
   \<and> find_flag_columns_for_aggregation nfkd_sample
        [ustr ''Column A'', ustr ''Flag other'', ustr ''Flag Marker1 X'', ustr ''Flag Marker2 Y'']
      = Some (ustr ''Flag Marker1 X'')
   \<and> first_such (qualifies nfkd_sample)
        [ustr ''Column A'', ustr ''Flag other'', ustr ''Flag Marker1 X'', ustr ''Flag Marker2 Y'']
        (ustr ''Flag Marker1 X'')"
proof -
  have r: "find_flag_columns_for_aggregation nfkd_sample
        [ustr ''Column A'', ustr ''Flag other'', ustr ''Flag Marker1 X'', ustr ''Flag Marker2 Y'']
      = Some (ustr ''Flag Marker1 X'')"
    by (simp add: resolver_eval)
  with find_flag_column_first_qualifying [OF nfkd_sample_fixes_ascii,
      of "[ustr ''Column A'', ustr ''Flag other'', ustr ''Flag Marker1 X'', ustr ''Flag Marker2 Y'']"
         "ustr ''Flag Marker1 X''"]
  have "first_such (qualifies nfkd_sample)
        [ustr ''Column A'', ustr ''Flag other'', ustr ''Flag Marker1 X'', ustr ''Flag Marker2 Y'']
        (ustr ''Flag Marker1 X'')"
    by blast
  with r nfkd_sample_fixes_ascii show ?thesis by blast
qed

section \<open>Properties of the pipeline\<close>

lemma ingest_Inr:
  assumes "ingest nfkd env path st = Inr (st1, cand)"
  shows "\<exists>wb sheet df a others_a ca b others_b resolved n.
           hdfs env = Some wb
         \<and> find_resilient_sheet_name nfkd (Some wb) path (ustr ''sheet_prefix_to_find'') = Inr sheet
         \<and> sheets wb sheet = Inr df \<and> rows df \<noteq> []
         \<and> get_resilient_column_names nfkd (columns df) [ustr ''column_a''] = a # others_a
         \<and> col env (columns df) (quote_column_if_needed a) = Some ca
         \<and> get_resilient_column_names nfkd (columns df) [ustr ''column_b''] = b # others_b
         \<and> resolve_expressions (col env (columns df))
               (select_expressions a b (find_flag_columns_for_aggregation nfkd (columns df)))
             = Inr resolved
         \<and> compute_flagged_line_count (col env (columns df)) (filter (valid_row ca) (rows df))
               (find_flag_columns_for_aggregation nfkd (columns df)) = Inr n
         \<and> st1 = st\<lparr>intermediate_table :=
                      Some (select resolved (filter (valid_row ca) (rows df)))\<rparr>
         \<and> cand = \<lparr>filename = basename path, processing_timestamp = clock env,
                    flagged_line_count = n\<rparr>"
proof -
  from assms obtain sheet where
    s: "find_resilient_sheet_name nfkd (hdfs env) path (ustr ''sheet_prefix_to_find'') = Inr sheet"
    by (cases "find_resilient_sheet_name nfkd (hdfs env) path (ustr ''sheet_prefix_to_find'')")
       (simp_all add: ingest_def)
  from assms s obtain wb where w: "hdfs env = Some wb"
    by (cases "hdfs env") (simp_all add: ingest_def)
  from assms s w obtain df where d: "sheets wb sheet = Inr df"
    by (cases "sheets wb sheet") (simp_all add: ingest_def)
  from assms s w d have r: "rows df \<noteq> []"
    by (auto simp: ingest_def createDataFrame_def split: if_splits)
  then have c: "createDataFrame df = Inr df"
    by (simp add: createDataFrame_def)
  from assms s w d c obtain a others_a where
    a: "get_resilient_column_names nfkd (columns df) [ustr ''column_a''] = a # others_a"
    by (cases "get_resilient_column_names nfkd (columns df) [ustr ''column_a'']")
       (simp_all add: ingest_def)
  from assms s w d c a obtain ca where
    ca: "col env (columns df) (quote_column_if_needed a) = Some ca"
    by (cases "col env (columns df) (quote_column_if_needed a)")
       (simp_all add: ingest_def column_reference_def)
  from assms s w d c a ca obtain b others_b where
    b: "get_resilient_column_names nfkd (columns df) [ustr ''column_b''] = b # others_b"
    by (cases "get_resilient_column_names nfkd (columns df) [ustr ''column_b'']")
       (simp_all add: ingest_def column_reference_def Let_def)
  from assms s w d c a ca b obtain resolved where
    e: "resolve_expressions (col env (columns df))
               (select_expressions a b (find_flag_columns_for_aggregation nfkd (columns df)))
             = Inr resolved"
    by (cases "resolve_expressions (col env (columns df))
               (select_expressions a b (find_flag_columns_for_aggregation nfkd (columns df)))")
       (simp_all add: ingest_def column_reference_def Let_def)
  from assms s w d c a ca b e obtain n where
    n: "compute_flagged_line_count (col env (columns df)) (filter (valid_row ca) (rows df))
               (find_flag_columns_for_aggregation nfkd (columns df)) = Inr n"
    by (cases "compute_flagged_line_count (col env (columns df))
                 (filter (valid_row ca) (rows df))
                 (find_flag_columns_for_aggregation nfkd (columns df))")
       (simp_all add: ingest_def column_reference_def Let_def)
  from assms s w d c a ca b e n have
    both: "st1 = st\<lparr>intermediate_table :=
                      Some (select resolved (filter (valid_row ca) (rows df)))\<rparr>
     \<and> cand = \<lparr>filename = basename path, processing_timestamp = clock env,
                    flagged_line_count = n\<rparr>"
    by (auto simp: ingest_def column_reference_def Let_def)
  from s w have s': "find_resilient_sheet_name nfkd (Some wb) path
                       (ustr ''sheet_prefix_to_find'') = Inr sheet"
    by simp
  note st1_eq = both [THEN conjunct1] and cand_eq = both [THEN conjunct2]
  show ?thesis
    by (intro exI conjI) (rule w s' d r a ca b e n st1_eq cand_eq)+
qed

lemma ingest_success:
  assumes "hdfs env = Some wb"
    and "find_resilient_sheet_name nfkd (Some wb) path (ustr ''sheet_prefix_to_find'') = Inr sheet"
    and "sheets wb sheet = Inr df" and "rows df \<noteq> []"
    and "get_resilient_column_names nfkd (columns df) [ustr ''column_a''] = a # others_a"
    and "col env (columns df) (quote_column_if_needed a) = Some ca"
    and "get_resilient_column_names nfkd (columns df) [ustr ''column_b''] = b # others_b"
    and "resolve_expressions (col env (columns df))
               (select_expressions a b (find_flag_columns_for_aggregation nfkd (columns df)))
             = Inr resolved"
    and "compute_flagged_line_count (col env (columns df)) (filter (valid_row ca) (rows df))
               (find_flag_columns_for_aggregation nfkd (columns df)) = Inr n"
  shows "ingest nfkd env path st =
           Inr (st\<lparr>intermediate_table :=
                      Some (select resolved (filter (valid_row ca) (rows df)))\<rparr>,
                \<lparr>filename = basename path, processing_timestamp = clock env,
                 flagged_line_count = n\<rparr>)"
  using assms
  by (simp add: ingest_def createDataFrame_def column_reference_def Let_def)

lemma ingest_keeps_history:
  assumes "ingest nfkd env path st = Inr (st1, cand)"
  shows "history_table st1 = history_table st"
  using ingest_Inr [OF assms] by auto

lemma ingest_candidate:
  assumes "ingest nfkd env path st = Inr (st1, cand)"
  shows "filename cand = basename path \<and> processing_timestamp cand = clock env"
  using ingest_Inr [OF assms] by auto

lemmas sample_eval =
  resolver_eval sample_env_def sample_workbook_def sample_frame_def empty_catalog_def
  row_of_def valid_row_def trim_def count_non_null_def basename_def
  find_resilient_sheet_name_def enumerate_and_match_def

lemmas reference_eval =
  quote_column_if_needed_def is_unicode_whitespace_def is_whitespace_def startswith_def
  endswith_def sample_col_def ustr_def Let_def

lemma sample_sheet:
  "find_resilient_sheet_name nfkd_sample (Some sample_workbook) (ustr ''/in/q1.xlsx'')
     (ustr ''sheet_prefix_to_find'') = Inr (ustr ''Sheet_Prefix_To_Find - March'')"
  by (simp add: sample_eval)

lemma sample_column_a:
  "get_resilient_column_names nfkd_sample (columns sample_frame) [ustr ''column_a'']
     = [ustr ''Column_A Name'']"
  by (simp add: sample_eval)

lemma sample_column_b:
  "get_resilient_column_names nfkd_sample (columns sample_frame) [ustr ''column_b'']
     = [ustr ''Column_B (code)'']"
  by (simp add: sample_eval)

lemma sample_flag:
  "find_flag_columns_for_aggregation nfkd_sample (columns sample_frame)
     = Some (ustr ''Flag Marker1'')"
  by (simp add: sample_eval)

lemma sample_references:
  "sample_col (columns sample_frame) (quote_column_if_needed (ustr ''Column_A Name''))
     = Some (ustr ''Column_A Name'')"
  "sample_col (columns sample_frame) (quote_column_if_needed (ustr ''Column_B (code)''))
     = Some (ustr ''Column_B (code)'')"
  "sample_col (columns sample_frame) (quote_column_if_needed (ustr ''Flag Marker1''))
     = Some (ustr ''Flag Marker1'')"
  by (simp_all add: reference_eval sample_frame_def)

lemma sample_count:
  "count_non_null (ustr ''Flag Marker1'')
     (filter (valid_row (ustr ''Column_A Name'')) (rows sample_frame)) = 2"
  by (simp add: sample_eval)

lemma sample_sheets: "sheets sample_workbook n = Inr sample_frame"
  by (simp add: sample_workbook_def)

lemma sample_hdfs: "hdfs (sample_env answer) = Some sample_workbook"
  by (simp add: sample_env_def)

lemma sample_latest: "latest_history (sample_env answer) = answer"
  by (simp add: sample_env_def)

lemma sample_engine: "col (sample_env answer) = sample_col"
  by (simp add: sample_env_def)

lemma sample_resolved:
  "resolve_expressions (col (sample_env answer) (columns sample_frame))
     (select_expressions (ustr ''Column_A Name'') (ustr ''Column_B (code)'')
        (find_flag_columns_for_aggregation nfkd_sample (columns sample_frame)))
   = Inr [(ustr ''Column_A Name'', ustr ''column_a''),
          (ustr ''Column_B (code)'', ustr ''column_b''),
          (ustr ''Flag Marker1'', ustr ''flag'')]"
proof -
  have t: "truthy (Some (ustr ''Flag Marker1''))"
    by (simp add: ustr_def)
  show ?thesis
    by (simp only: sample_flag sample_engine select_expressions_def option.case t if_True
        resolve_expressions.simps append.simps fst_conv snd_conv column_reference_def
        sample_references sum.case)
qed

lemma sample_flagged:
  "compute_flagged_line_count (col (sample_env answer) (columns sample_frame))
     (filter (valid_row (ustr ''Column_A Name'')) (rows sample_frame))
     (find_flag_columns_for_aggregation nfkd_sample (columns sample_frame)) = Inr 2"
proof -
  have t: "truthy (Some (ustr ''Flag Marker1''))"
    by (simp add: ustr_def)
  have l: "0 < length (filter (valid_row (ustr ''Column_A Name'')) (rows sample_frame))"
    by (simp add: sample_eval)
  show ?thesis
    by (simp only: sample_flag sample_engine compute_flagged_line_count_def option.case t l
        simp_thms if_True column_reference_def sample_references sum.case sample_count)
qed

lemma sample_select:
  "select [(ustr ''Column_A Name'', ustr ''column_a''),
           (ustr ''Column_B (code)'', ustr ''column_b''),
           (ustr ''Flag Marker1'', ustr ''flag'')]
          (filter (valid_row (ustr ''Column_A Name'')) (rows sample_frame))
     = \<lparr>schema = [ustr ''column_a'', ustr ''column_b'', ustr ''flag''],
        data = [[Some (ustr ''A1''), Some (ustr ''b1''), Some (ustr ''x'')],
                [Some (ustr ''A3''), Some (ustr ''b3''), None],
                [Some (ustr ''NaN''), Some (ustr ''b4''), Some (ustr ''NaN'')]]\<rparr>"
  by (simp add: sample_eval select_def)

lemma sample_ingest:
  "ingest nfkd_sample (sample_env answer) (ustr ''/in/q1.xlsx'') st =
     Inr (st\<lparr>intermediate_table :=
               Some \<lparr>schema = [ustr ''column_a'', ustr ''column_b'', ustr ''flag''],
                     data = [[Some (ustr ''A1''), Some (ustr ''b1''), Some (ustr ''x'')],
                             [Some (ustr ''A3''), Some (ustr ''b3''), None],
                             [Some (ustr ''NaN''), Some (ustr ''b4''), Some (ustr ''NaN'')]]\<rparr>\<rparr>,
          \<lparr>filename = ustr ''q1.xlsx'', processing_timestamp = ustr ''2024-03-01 10:15'',
           flagged_line_count = 2\<rparr>)"
proof -
  have r: "rows sample_frame \<noteq> []"
    by (simp add: sample_frame_def)
  have a: "get_resilient_column_names nfkd_sample (columns sample_frame) [ustr ''column_a'']
             = ustr ''Column_A Name'' # []"
    by (simp add: sample_column_a)
  have b: "get_resilient_column_names nfkd_sample (columns sample_frame) [ustr ''column_b'']
             = ustr ''Column_B (code)'' # []"
    by (simp add: sample_column_b)
  have ca: "col (sample_env answer) (columns sample_frame)
              (quote_column_if_needed (ustr ''Column_A Name'')) = Some (ustr ''Column_A Name'')"
    by (simp only: sample_engine sample_references)
  have n: "basename (ustr ''/in/q1.xlsx'') = ustr ''q1.xlsx''"
    by (simp add: basename_def ustr_def)
  have c: "clock (sample_env answer) = ustr ''2024-03-01 10:15''"
    by (simp add: sample_env_def)
  show ?thesis
    by (simp only: ingest_success [OF sample_hdfs sample_sheet sample_sheets r a ca b
          sample_resolved sample_flagged] sample_select n c)
qed

lemma flag_col_truthy:
  assumes "nfkd_fixes_ascii nfkd" "find_flag_columns_for_aggregation nfkd cols = Some f"
  shows "truthy (Some f)"
proof -
  from assms have "find (qualifies nfkd) cols = Some f"
    by (simp add: flag_column_result)
  then have "qualifies nfkd f"
    by (auto simp: find_Some_iff)
  with assms(1) have "f \<noteq> []" by (rule qualifies_nonempty)
  then show ?thesis by simp
qed

lemma count_non_null_Nil: "count_non_null c [] = 0"
  by (simp add: count_non_null_def)

lemma flag_reference_resolved:
  assumes "resolve_expressions resolve (select_expressions a b (Some f)) = Inr resolved"
    and "truthy (Some f)"
  shows "\<exists>fc. resolve (quote_column_if_needed f) = Some fc"
  using assms
  by (auto simp: select_expressions_def column_reference_def
      split: option.splits sum.splits)

text \<open>
  C4. The count derivation gives zero, and no error, when no flag column was found. And
  in every run that reaches the candidate record, its \<open>flagged_line_count\<close> is zero when
  no flag column was found, and otherwise the number of non-null cells, in the column
  that the reference to the flag column denotes, among the rows that passed the filter
  on \<open>column_a\<close>.
\<close>

theorem flagged_line_count_is_non_null_count:
  assumes fx: "nfkd_fixes_ascii nfkd"
    and i: "ingest nfkd env path st = Inr (st1, cand)"
  shows "compute_flagged_line_count resolve valid_rows None = Inr 0
       \<and> (\<exists>wb sheet df a others ca.
             hdfs env = Some wb
           \<and> find_resilient_sheet_name nfkd (Some wb) path (ustr ''sheet_prefix_to_find'')
               = Inr sheet
           \<and> sheets wb sheet = Inr df
           \<and> get_resilient_column_names nfkd (columns df) [ustr ''column_a''] = a # others
           \<and> col env (columns df) (quote_column_if_needed a) = Some ca
           \<and> (case find_flag_columns_for_aggregation nfkd (columns df) of
                None \<Rightarrow> flagged_line_count cand = 0
              | Some f \<Rightarrow>
                  \<exists>fc. col env (columns df) (quote_column_if_needed f) = Some fc
                     \<and> flagged_line_count cand
                         = count_non_null fc (filter (valid_row ca) (rows df))))"
proof
  show "compute_flagged_line_count resolve valid_rows None = Inr 0"
    by (simp add: compute_flagged_line_count_def)
next
  from ingest_Inr [OF i] obtain wb sheet df a others_a ca b others_b resolved n where
    w: "hdfs env = Some wb"
    and s: "find_resilient_sheet_name nfkd (Some wb) path (ustr ''sheet_prefix_to_find'')
              = Inr sheet"
    and d: "sheets wb sheet = Inr df"
    and a: "get_resilient_column_names nfkd (columns df) [ustr ''column_a''] = a # others_a"
    and ca: "col env (columns df) (quote_column_if_needed a) = Some ca"
    and e: "resolve_expressions (col env (columns df))
               (select_expressions a b (find_flag_columns_for_aggregation nfkd (columns df)))
             = Inr resolved"
    and n: "compute_flagged_line_count (col env (columns df))
               (filter (valid_row ca) (rows df))
               (find_flag_columns_for_aggregation nfkd (columns df)) = Inr n"
    and c: "cand = \<lparr>filename = basename path, processing_timestamp = clock env,
                    flagged_line_count = n\<rparr>"
    by blast
  have "case find_flag_columns_for_aggregation nfkd (columns df) of
                None \<Rightarrow> flagged_line_count cand = 0
              | Some f \<Rightarrow>
                  \<exists>fc. col env (columns df) (quote_column_if_needed f) = Some fc
                     \<and> flagged_line_count cand
                         = count_non_null fc (filter (valid_row ca) (rows df))"
  proof (cases "find_flag_columns_for_aggregation nfkd (columns df)")
    case None
    with n c show ?thesis
      by (simp add: compute_flagged_line_count_def)
  next
    case (Some f)
    have t: "truthy (Some f)" by (rule flag_col_truthy [OF fx Some])
    from e Some t obtain fc where
      fc: "col env (columns df) (quote_column_if_needed f) = Some fc"
      using flag_reference_resolved by metis
    have "n = count_non_null fc (filter (valid_row ca) (rows df))"
    proof (cases "filter (valid_row ca) (rows df) = []")
      case True
      with n Some show ?thesis
        by (simp add: compute_flagged_line_count_def count_non_null_Nil)
    next
      case False
      with n Some t fc show ?thesis
        by (simp add: compute_flagged_line_count_def column_reference_def)
    qed
    with Some fc c show ?thesis by simp
  qed
  with w s d a ca
  show "\<exists>wb sheet df a others ca.
             hdfs env = Some wb
           \<and> find_resilient_sheet_name nfkd (Some wb) path (ustr ''sheet_prefix_to_find'')
               = Inr sheet
           \<and> sheets wb sheet = Inr df
           \<and> get_resilient_column_names nfkd (columns df) [ustr ''column_a''] = a # others
           \<and> col env (columns df) (quote_column_if_needed a) = Some ca
           \<and> (case find_flag_columns_for_aggregation nfkd (columns df) of
                None \<Rightarrow> flagged_line_count cand = 0
              | Some f \<Rightarrow>
                  \<exists>fc. col env (columns df) (quote_column_if_needed f) = Some fc
                     \<and> flagged_line_count cand
                         = count_non_null fc (filter (valid_row ca) (rows df)))"
    by blast
qed

theorem flagged_line_count_is_non_null_count_witness:
  "ingest nfkd_sample (sample_env SqlError) (ustr ''/in/q1.xlsx'') empty_catalog
     = Inr (empty_catalog\<lparr>intermediate_table :=
               Some \<lparr>schema = [ustr ''column_a'', ustr ''column_b'', ustr ''flag''],
                     data = [[Some (ustr ''A1''), Some (ustr ''b1''), Some (ustr ''x'')],
                             [Some (ustr ''A3''), Some (ustr ''b3''), None],
                             [Some (ustr ''NaN''), Some (ustr ''b4''), Some (ustr ''NaN'')]]\<rparr>\<rparr>,
            \<lparr>filename = ustr ''q1.xlsx'', processing_timestamp = ustr ''2024-03-01 10:15'',
             flagged_line_count = 2\<rparr>)
   \<and> (\<exists>fc. sample_col (columns sample_frame) (quote_column_if_needed (ustr ''Flag Marker1''))
              = Some fc
          \<and> count_non_null fc (filter (valid_row (ustr ''Column_A Name'')) (rows sample_frame))
              = 2)"
proof -
  let ?cand = "\<lparr>filename = ustr ''q1.xlsx'', processing_timestamp = ustr ''2024-03-01 10:15'',
                 flagged_line_count = 2\<rparr>"
  note inst = flagged_line_count_is_non_null_count
    [OF nfkd_sample_fixes_ascii sample_ingest [of SqlError empty_catalog], THEN conjunct2]
  then obtain wb sheet df a others ca where
    w: "hdfs (sample_env SqlError) = Some wb"
    and d: "sheets wb sheet = Inr df"
    and a: "get_resilient_column_names nfkd_sample (columns df) [ustr ''column_a''] = a # others"
    and ca: "col (sample_env SqlError) (columns df) (quote_column_if_needed a) = Some ca"
    and k: "case find_flag_columns_for_aggregation nfkd_sample (columns df) of
                None \<Rightarrow> flagged_line_count ?cand = 0
              | Some f \<Rightarrow>
                  \<exists>fc. col (sample_env SqlError) (columns df) (quote_column_if_needed f) = Some fc
                     \<and> flagged_line_count ?cand
                         = count_non_null fc (filter (valid_row ca) (rows df))"
    by blast
  from w have "wb = sample_workbook" by (simp add: sample_hdfs)
  with d have df: "df = sample_frame" by (simp add: sample_sheets)
  with a have "a = ustr ''Column_A Name''" by (simp add: sample_column_a)
  with ca df have "ca = ustr ''Column_A Name''"
    by (simp add: sample_engine sample_references)
  with k df have "\<exists>fc. sample_col (columns sample_frame)
                         (quote_column_if_needed (ustr ''Flag Marker1'')) = Some fc
          \<and> count_non_null fc (filter (valid_row (ustr ''Column_A Name'')) (rows sample_frame))
              = 2"
    by (auto simp: sample_flag sample_engine)
  with sample_ingest [of SqlError empty_catalog] show ?thesis by blast
qed

lemma trim_spaces: "set v \<subseteq> {32} \<Longrightarrow> trim v = []"
proof -
  assume "set v \<subseteq> {32}"
  then have "dropWhile (\<lambda>c. c = 32) v = []"
    by (auto simp: dropWhile_eq_Nil_conv)
  then show ?thesis
    unfolding trim_def by (simp only: rev.simps dropWhile.simps)
qed

lemma column_names_subset:
  "set (get_resilient_column_names nfkd cols ps) \<subseteq> set cols"
  by (auto simp: column_names_result set_first_occurrences)

lemma column_names_empty_iff:
  "get_resilient_column_names nfkd cols [t] = [] \<longleftrightarrow> (\<forall>c\<in>set cols. \<not> matches_prefix nfkd t c)"
proof -
  have "get_resilient_column_names nfkd cols [t] = []
          \<longleftrightarrow> set (get_resilient_column_names nfkd cols [t]) = {}"
    by simp
  also have "\<dots> \<longleftrightarrow> (\<forall>c\<in>set cols. \<not> matches_prefix nfkd t c)"
    by (auto simp: column_names_result set_first_occurrences)
  finally show ?thesis .
qed

text \<open>
  C5, as the code has it. A row is kept exactly when its cell in the filter column is not
  null and its trimmed value is not empty; the engine's trim removes spaces only, so a
  value made of spaces (or empty) is excluded. In every run that writes the intermediate
  table, the filter column is the one denoted by the reference to the resolved original
  \<open>column_a\<close> header, a header of the sheet itself, and the rows of the table are the
  projection, under the new names, of the rows already filtered.
\<close>

theorem row_filter_before_projection:
  "(\<forall>c r. valid_row c r \<longleftrightarrow> (\<exists>v. r c = Some v \<and> trim v \<noteq> []))
   \<and> (\<forall>c r v. r c = Some v \<and> set v \<subseteq> {32} \<longrightarrow> \<not> valid_row c r)
   \<and> (ingest nfkd env path st = Inr (st1, cand) \<longrightarrow>
        (\<exists>wb sheet df a others_a ca b others_b resolved.
            hdfs env = Some wb
          \<and> find_resilient_sheet_name nfkd (Some wb) path (ustr ''sheet_prefix_to_find'')
              = Inr sheet
          \<and> sheets wb sheet = Inr df
          \<and> get_resilient_column_names nfkd (columns df) [ustr ''column_a''] = a # others_a
          \<and> a \<in> set (columns df)
          \<and> col env (columns df) (quote_column_if_needed a) = Some ca
          \<and> get_resilient_column_names nfkd (columns df) [ustr ''column_b''] = b # others_b
          \<and> resolve_expressions (col env (columns df))
                (select_expressions a b (find_flag_columns_for_aggregation nfkd (columns df)))
              = Inr resolved
          \<and> intermediate_table st1
              = Some (select resolved (filter (valid_row ca) (rows df)))))"
proof (intro conjI impI)
  show "\<forall>c r. valid_row c r \<longleftrightarrow> (\<exists>v. r c = Some v \<and> trim v \<noteq> [])"
    by (auto simp: valid_row_def split: option.splits)
  show "\<forall>c r v. r c = Some v \<and> set v \<subseteq> {32} \<longrightarrow> \<not> valid_row c r"
    by (auto simp: valid_row_def trim_spaces)
next
  assume i: "ingest nfkd env path st = Inr (st1, cand)"
  from ingest_Inr [OF i] obtain wb sheet df a others_a ca b others_b resolved n where
    w: "hdfs env = Some wb"
    and s: "find_resilient_sheet_name nfkd (Some wb) path (ustr ''sheet_prefix_to_find'')
              = Inr sheet"
    and d: "sheets wb sheet = Inr df"
    and a: "get_resilient_column_names nfkd (columns df) [ustr ''column_a''] = a # others_a"
    and ca: "col env (columns df) (quote_column_if_needed a) = Some ca"
    and b: "get_resilient_column_names nfkd (columns df) [ustr ''column_b''] = b # others_b"
    and e: "resolve_expressions (col env (columns df))
               (select_expressions a b (find_flag_columns_for_aggregation nfkd (columns df)))
             = Inr resolved"
    and t: "st1 = st\<lparr>intermediate_table :=
                      Some (select resolved (filter (valid_row ca) (rows df)))\<rparr>"
    by blast
  have "a \<in> set (get_resilient_column_names nfkd (columns df) [ustr ''column_a''])"
    by (simp add: a)
  with column_names_subset have m: "a \<in> set (columns df)"
    by blast
  from t have t': "intermediate_table st1
              = Some (select resolved (filter (valid_row ca) (rows df)))"
    by simp
  show "\<exists>wb sheet df a others_a ca b others_b resolved.
            hdfs env = Some wb
          \<and> find_resilient_sheet_name nfkd (Some wb) path (ustr ''sheet_prefix_to_find'')
              = Inr sheet
          \<and> sheets wb sheet = Inr df
          \<and> get_resilient_column_names nfkd (columns df) [ustr ''column_a''] = a # others_a
          \<and> a \<in> set (columns df)
          \<and> col env (columns df) (quote_column_if_needed a) = Some ca
          \<and> get_resilient_column_names nfkd (columns df) [ustr ''column_b''] = b # others_b
          \<and> resolve_expressions (col env (columns df))
                (select_expressions a b (find_flag_columns_for_aggregation nfkd (columns df)))
              = Inr resolved
          \<and> intermediate_table st1
              = Some (select resolved (filter (valid_row ca) (rows df)))"
    by (intro exI conjI) (rule w s d a m ca b e t')+
qed

theorem row_filter_before_projection_witness:
  "\<not> valid_row (ustr ''Column_A Name'') (row_of [(ustr ''Column_A Name'', Some (ustr ''   ''))])
   \<and> valid_row (ustr ''Column_A Name'') (row_of [(ustr ''Column_A Name'', Some (ustr ''A1''))])
   \<and> (\<exists>st1 cand. ingest nfkd_sample (sample_env SqlError) (ustr ''/in/q1.xlsx'') empty_catalog
                     = Inr (st1, cand)
         \<and> intermediate_table st1 =
             Some \<lparr>schema = [ustr ''column_a'', ustr ''column_b'', ustr ''flag''],
                   data = [[Some (ustr ''A1''), Some (ustr ''b1''), Some (ustr ''x'')],
                           [Some (ustr ''A3''), Some (ustr ''b3''), None],
                           [Some (ustr ''NaN''), Some (ustr ''b4''), Some (ustr ''NaN'')]]\<rparr>
         \<and> (\<exists>(df::dataframe) ca resolved.
               intermediate_table st1 = Some (select resolved (filter (valid_row ca) (rows df)))))"
proof -
  let ?st1 = "empty_catalog\<lparr>intermediate_table :=
               Some \<lparr>schema = [ustr ''column_a'', ustr ''column_b'', ustr ''flag''],
                     data = [[Some (ustr ''A1''), Some (ustr ''b1''), Some (ustr ''x'')],
                             [Some (ustr ''A3''), Some (ustr ''b3''), None],
                             [Some (ustr ''NaN''), Some (ustr ''b4''), Some (ustr ''NaN'')]]\<rparr>\<rparr>"
  let ?cand = "\<lparr>filename = ustr ''q1.xlsx'', processing_timestamp = ustr ''2024-03-01 10:15'',
                 flagged_line_count = 2\<rparr>"
  note facts = row_filter_before_projection
    [where nfkd = nfkd_sample and env = "sample_env SqlError" and path = "ustr ''/in/q1.xlsx''"
       and st = empty_catalog and ?st1.0 = ?st1 and cand = ?cand]
  note f1 = facts [THEN conjunct1, rule_format]
    and f2 = facts [THEN conjunct2, THEN conjunct1, rule_format]
    and f3 = facts [THEN conjunct2, THEN conjunct2, rule_format]
  have sp: "row_of [(ustr ''Column_A Name'', Some (ustr ''   ''))] (ustr ''Column_A Name'')
              = Some (ustr ''   '') \<and> set (ustr ''   '') \<subseteq> {32}"
    by (simp add: row_of_def ustr_def)
  have c1: "\<not> valid_row (ustr ''Column_A Name'')
                (row_of [(ustr ''Column_A Name'', Some (ustr ''   ''))])"
    by (rule f2 [of "row_of [(ustr ''Column_A Name'', Some (ustr ''   ''))]"
          "ustr ''Column_A Name''" "ustr ''   ''", OF sp])
  have "\<exists>v. row_of [(ustr ''Column_A Name'', Some (ustr ''A1''))] (ustr ''Column_A Name'')
              = Some v \<and> trim v \<noteq> []"
    by (simp add: row_of_def ustr_def trim_def)
  then have c2: "valid_row (ustr ''Column_A Name'')
                (row_of [(ustr ''Column_A Name'', Some (ustr ''A1''))])"
    by (simp only: f1)
  have i: "ingest nfkd_sample (sample_env SqlError) (ustr ''/in/q1.xlsx'') empty_catalog
             = Inr (?st1, ?cand)"
    by (rule sample_ingest)
  from f3 [OF i] have e: "\<exists>(df::dataframe) ca resolved.
      intermediate_table ?st1 = Some (select resolved (filter (valid_row ca) (rows df)))"
    by (elim exE conjE) (intro exI)
  have t: "intermediate_table ?st1 =
             Some \<lparr>schema = [ustr ''column_a'', ustr ''column_b'', ustr ''flag''],
                   data = [[Some (ustr ''A1''), Some (ustr ''b1''), Some (ustr ''x'')],
                           [Some (ustr ''A3''), Some (ustr ''b3''), None],
                           [Some (ustr ''NaN''), Some (ustr ''b4''), Some (ustr ''NaN'')]]\<rparr>"
    by simp
  from i t e have c3: "\<exists>st1 cand. ingest nfkd_sample (sample_env SqlError) (ustr ''/in/q1.xlsx'')
                     empty_catalog = Inr (st1, cand)
         \<and> intermediate_table st1 =
             Some \<lparr>schema = [ustr ''column_a'', ustr ''column_b'', ustr ''flag''],
                   data = [[Some (ustr ''A1''), Some (ustr ''b1''), Some (ustr ''x'')],
                           [Some (ustr ''A3''), Some (ustr ''b3''), None],
                           [Some (ustr ''NaN''), Some (ustr ''b4''), Some (ustr ''NaN'')]]\<rparr>
         \<and> (\<exists>(df::dataframe) ca resolved.
               intermediate_table st1 = Some (select resolved (filter (valid_row ca) (rows df))))"
    by (intro exI [of _ ?st1] exI [of _ ?cand] conjI)
  from c1 c2 c3 show ?thesis by (intro conjI)
qed

text \<open>
  C5, as the claim has it, fails on whitespace other than the space: a row whose
  \<open>column_a\<close> value is a single tab passes the filter.
\<close>

theorem whitespace_only_row_counterexample:
  "valid_row (ustr ''Column_A'') (row_of [(ustr ''Column_A'', Some [9])])"
  by (simp add: valid_row_def row_of_def trim_def ustr_def)

lemma sheet_failure:
  assumes "\<forall>s\<in>set (sheetnames wb). \<not> matches_prefix nfkd target s"
  shows "\<exists>m. find_resilient_sheet_name nfkd (Some wb) path target = Inl (Exception m)
           \<and> carries_text m target
           \<and> carries_text m (normalize_text_for_matching nfkd target)
           \<and> carries_list m (sheetnames wb)"
proof -
  from assms have "find (matches_prefix nfkd target) (sheetnames wb) = None"
    by (simp add: find_None_iff)
  then show ?thesis
    by (simp add: sheet_name_result carries_text_def carries_list_def)
qed

lemma column_literals:
  "contains (ustr (''Column '' @ sq @ ''column_a'' @ sq @ '' not found in headers: ''))
     (ustr ''column_a'')"
  "contains (ustr (''Column '' @ sq @ ''column_b'' @ sq @ '' not found in headers: ''))
     (ustr ''column_b'')"
  by (simp_all add: contains_def ustr_def sq_def sublist_code)

lemma process_excel_failure:
  "ingest nfkd env path st = Inl e \<Longrightarrow> process_excel nfkd env path st = (Failed e, st)"
  by (simp add: process_excel_def)

lemma no_sheet_matches:
  "\<forall>s\<in>set [ustr ''Foo'', ustr ''Bar''].
      \<not> matches_prefix nfkd_sample (ustr ''sheet_prefix_to_find'') s"
  by (simp add: matches_prefix_def resolver_eval)

lemma no_column_matches:
  "\<forall>c\<in>set [ustr ''Foo'', ustr ''Bar'']. \<not> matches_prefix nfkd_sample (ustr ''column_a'') c"
  "\<forall>c\<in>set [ustr ''Column_A'', ustr ''Bar'']. \<not> matches_prefix nfkd_sample (ustr ''column_b'') c"
  by (simp_all add: matches_prefix_def resolver_eval)

lemma one_column:
  "get_resilient_column_names nfkd_sample [ustr ''Column_A'', ustr ''Bar''] [ustr ''column_a'']
     = [ustr ''Column_A'']"
  "sample_col [ustr ''Column_A'', ustr ''Bar''] (quote_column_if_needed (ustr ''Column_A''))
     = Some (ustr ''Column_A'')"
  by (simp add: resolver_eval) (simp add: reference_eval)

lemma one_sheet:
  "find_resilient_sheet_name nfkd_sample
     (Some \<lparr>sheetnames = [ustr ''sheet_prefix_to_find''], sheets = (\<lambda>n. frame)\<rparr>)
     (ustr ''/in/q1.xlsx'') (ustr ''sheet_prefix_to_find'') = Inr (ustr ''sheet_prefix_to_find'')"
  by (simp add: sample_eval)

lemma frame_of_simps:
  "columns (frame_of header) = header" "rows (frame_of header) \<noteq> []"
  by (simp_all add: frame_of_def)

text \<open>
  C7. When no sheet name matches, the exception of \<open>find_resilient_sheet_name\<close>, which
  \<open>process_excel\<close> lets through, carries the raw target prefix, its normalized form and
  the list of all sheet names. When the sheet was loaded with at least one row and no
  header matches \<open>column_a\<close>, or \<open>column_a\<close> is resolved to a header whose reference the
  engine accepts and no header matches \<open>column_b\<close>, the exception of \<open>process_excel\<close>
  carries the target name, which is its own normalized form, and the list of all headers.
\<close>

theorem resolution_failure_is_diagnosable:
  assumes fx: "nfkd_fixes_ascii nfkd" and fl: "hdfs env = Some wb"
  shows "(\<forall>target p. (\<forall>s\<in>set (sheetnames wb). \<not> matches_prefix nfkd target s) \<longrightarrow>
            (\<exists>m. find_resilient_sheet_name nfkd (Some wb) p target = Inl (Exception m)
                \<and> carries_text m target
                \<and> carries_text m (normalize_text_for_matching nfkd target)
                \<and> carries_list m (sheetnames wb)))
       \<and> ((\<forall>s\<in>set (sheetnames wb). \<not> matches_prefix nfkd (ustr ''sheet_prefix_to_find'') s) \<longrightarrow>
            (\<exists>m. process_excel nfkd env path st = (Failed (Exception m), st)
                \<and> carries_text m (ustr ''sheet_prefix_to_find'')
                \<and> carries_text m (normalize_text_for_matching nfkd (ustr ''sheet_prefix_to_find''))
                \<and> carries_list m (sheetnames wb)))
       \<and> (\<forall>sheet df.
            find_resilient_sheet_name nfkd (Some wb) path (ustr ''sheet_prefix_to_find'') = Inr sheet
            \<and> sheets wb sheet = Inr df \<and> rows df \<noteq> []
            \<and> (\<forall>c\<in>set (columns df). \<not> matches_prefix nfkd (ustr ''column_a'') c) \<longrightarrow>
            (\<exists>m. process_excel nfkd env path st = (Failed (ValueError m), st)
                \<and> carries_text m (ustr ''column_a'')
                \<and> carries_text m (normalize_text_for_matching nfkd (ustr ''column_a''))
                \<and> carries_list m (columns df)))
       \<and> (\<forall>sheet df a others ca.
            find_resilient_sheet_name nfkd (Some wb) path (ustr ''sheet_prefix_to_find'') = Inr sheet
            \<and> sheets wb sheet = Inr df \<and> rows df \<noteq> []
            \<and> get_resilient_column_names nfkd (columns df) [ustr ''column_a''] = a # others
            \<and> col env (columns df) (quote_column_if_needed a) = Some ca
            \<and> (\<forall>c\<in>set (columns df). \<not> matches_prefix nfkd (ustr ''column_b'') c) \<longrightarrow>
            (\<exists>m. process_excel nfkd env path st = (Failed (ValueError m), st)
                \<and> carries_text m (ustr ''column_b'')
                \<and> carries_text m (normalize_text_for_matching nfkd (ustr ''column_b''))
                \<and> carries_list m (columns df)))"
proof (intro conjI allI impI)
  fix target p
  assume "\<forall>s\<in>set (sheetnames wb). \<not> matches_prefix nfkd target s"
  then show "\<exists>m. find_resilient_sheet_name nfkd (Some wb) p target = Inl (Exception m)
                \<and> carries_text m target
                \<and> carries_text m (normalize_text_for_matching nfkd target)
                \<and> carries_list m (sheetnames wb)"
    by (rule sheet_failure)
next
  assume "\<forall>s\<in>set (sheetnames wb). \<not> matches_prefix nfkd (ustr ''sheet_prefix_to_find'') s"
  then obtain m where
    m: "find_resilient_sheet_name nfkd (Some wb) path (ustr ''sheet_prefix_to_find'')
          = Inl (Exception m)"
       "carries_text m (ustr ''sheet_prefix_to_find'')"
       "carries_text m (normalize_text_for_matching nfkd (ustr ''sheet_prefix_to_find''))"
       "carries_list m (sheetnames wb)"
    using sheet_failure by blast
  from m(1) fl have "ingest nfkd env path st = Inl (Exception m)"
    by (simp add: ingest_def)
  then have "process_excel nfkd env path st = (Failed (Exception m), st)"
    by (rule process_excel_failure)
  with m show "\<exists>m. process_excel nfkd env path st = (Failed (Exception m), st)
                \<and> carries_text m (ustr ''sheet_prefix_to_find'')
                \<and> carries_text m (normalize_text_for_matching nfkd (ustr ''sheet_prefix_to_find''))
                \<and> carries_list m (sheetnames wb)"
    by blast
next
  fix sheet df
  assume a: "find_resilient_sheet_name nfkd (Some wb) path (ustr ''sheet_prefix_to_find'') = Inr sheet
            \<and> sheets wb sheet = Inr df \<and> rows df \<noteq> []
            \<and> (\<forall>c\<in>set (columns df). \<not> matches_prefix nfkd (ustr ''column_a'') c)"
  then have "get_resilient_column_names nfkd (columns df) [ustr ''column_a''] = []"
    by (simp add: column_names_empty_iff)
  with a fl have "ingest nfkd env path st =
      Inl (ValueError [Text (''Column '' @ sq @ ''column_a'' @ sq @ '' not found in headers: ''),
                       StrList (columns df)])"
    by (simp add: ingest_def createDataFrame_def)
  then have "process_excel nfkd env path st =
      (Failed (ValueError [Text (''Column '' @ sq @ ''column_a'' @ sq @ '' not found in headers: ''),
                       StrList (columns df)]), st)"
    by (rule process_excel_failure)
  moreover have "carries_text
      [Text (''Column '' @ sq @ ''column_a'' @ sq @ '' not found in headers: ''),
       StrList (columns df)] (ustr ''column_a'')"
    by (simp only: carries_text_def list_ex_Cons_iff list_ex_Nil_iff fragment_has_text.simps
        column_literals simp_thms)
  moreover have "carries_list
      [Text (''Column '' @ sq @ ''column_a'' @ sq @ '' not found in headers: ''),
       StrList (columns df)] (columns df)"
    by (simp add: carries_list_def)
  ultimately show "\<exists>m. process_excel nfkd env path st = (Failed (ValueError m), st)
                \<and> carries_text m (ustr ''column_a'')
                \<and> carries_text m (normalize_text_for_matching nfkd (ustr ''column_a''))
                \<and> carries_list m (columns df)"
    by (simp add: ascii_literals [OF fx])
next
  fix sheet df a others ca
  assume a: "find_resilient_sheet_name nfkd (Some wb) path (ustr ''sheet_prefix_to_find'') = Inr sheet
            \<and> sheets wb sheet = Inr df \<and> rows df \<noteq> []
            \<and> get_resilient_column_names nfkd (columns df) [ustr ''column_a''] = a # others
            \<and> col env (columns df) (quote_column_if_needed a) = Some ca
            \<and> (\<forall>c\<in>set (columns df). \<not> matches_prefix nfkd (ustr ''column_b'') c)"
  then have "get_resilient_column_names nfkd (columns df) [ustr ''column_b''] = []"
    by (simp add: column_names_empty_iff)
  with a fl have "ingest nfkd env path st =
      Inl (ValueError [Text (''Column '' @ sq @ ''column_b'' @ sq @ '' not found in headers: ''),
                       StrList (columns df)])"
    by (simp add: ingest_def createDataFrame_def column_reference_def Let_def)
  then have "process_excel nfkd env path st =
      (Failed (ValueError [Text (''Column '' @ sq @ ''column_b'' @ sq @ '' not found in headers: ''),
                       StrList (columns df)]), st)"
    by (rule process_excel_failure)
  moreover have "carries_text
      [Text (''Column '' @ sq @ ''column_b'' @ sq @ '' not found in headers: ''),
       StrList (columns df)] (ustr ''column_b'')"
    by (simp only: carries_text_def list_ex_Cons_iff list_ex_Nil_iff fragment_has_text.simps
        column_literals simp_thms)
  moreover have "carries_list
      [Text (''Column '' @ sq @ ''column_b'' @ sq @ '' not found in headers: ''),
       StrList (columns df)] (columns df)"
    by (simp add: carries_list_def)
  ultimately show "\<exists>m. process_excel nfkd env path st = (Failed (ValueError m), st)
                \<and> carries_text m (ustr ''column_b'')
                \<and> carries_text m (normalize_text_for_matching nfkd (ustr ''column_b''))
                \<and> carries_list m (columns df)"
    by (simp add: ascii_literals [OF fx])
qed

theorem resolution_failure_is_diagnosable_witness:
  "(\<exists>m. process_excel nfkd_sample (env_of [ustr ''Foo'', ustr ''Bar''] sample_frame)
           (ustr ''/in/q1.xlsx'') empty_catalog = (Failed (Exception m), empty_catalog)
        \<and> carries_text m (ustr ''sheet_prefix_to_find'')
        \<and> carries_list m [ustr ''Foo'', ustr ''Bar''])
   \<and> (\<exists>m. process_excel nfkd_sample
           (env_of [ustr ''sheet_prefix_to_find''] (frame_of [ustr ''Foo'', ustr ''Bar'']))
           (ustr ''/in/q1.xlsx'') empty_catalog = (Failed (ValueError m), empty_catalog)
        \<and> carries_text m (ustr ''column_a'')
        \<and> carries_list m [ustr ''Foo'', ustr ''Bar''])
   \<and> (\<exists>m. process_excel nfkd_sample
           (env_of [ustr ''sheet_prefix_to_find''] (frame_of [ustr ''Column_A'', ustr ''Bar'']))
           (ustr ''/in/q1.xlsx'') empty_catalog = (Failed (ValueError m), empty_catalog)
        \<and> carries_text m (ustr ''column_b'')
        \<and> carries_list m [ustr ''Column_A'', ustr ''Bar''])"
proof (intro conjI)
  have h: "hdfs (env_of [ustr ''Foo'', ustr ''Bar''] sample_frame)
             = Some \<lparr>sheetnames = [ustr ''Foo'', ustr ''Bar''], sheets = (\<lambda>n. Inr sample_frame)\<rparr>"
    by (simp add: env_of_def)
  from resolution_failure_is_diagnosable [OF nfkd_sample_fixes_ascii h,
      of "ustr ''/in/q1.xlsx''" empty_catalog] no_sheet_matches
  show "\<exists>m. process_excel nfkd_sample (env_of [ustr ''Foo'', ustr ''Bar''] sample_frame)
           (ustr ''/in/q1.xlsx'') empty_catalog = (Failed (Exception m), empty_catalog)
        \<and> carries_text m (ustr ''sheet_prefix_to_find'')
        \<and> carries_list m [ustr ''Foo'', ustr ''Bar'']"
    by (simp del: set_simps) blast
next
  let ?df = "frame_of [ustr ''Foo'', ustr ''Bar'']"
  have h: "hdfs (env_of [ustr ''sheet_prefix_to_find''] ?df)
             = Some \<lparr>sheetnames = [ustr ''sheet_prefix_to_find''], sheets = (\<lambda>n. Inr ?df)\<rparr>"
    by (simp add: env_of_def)
  note inst = resolution_failure_is_diagnosable [OF nfkd_sample_fixes_ascii h,
      of "ustr ''/in/q1.xlsx''" empty_catalog, THEN conjunct2, THEN conjunct2, THEN conjunct1,
      rule_format, of "ustr ''sheet_prefix_to_find''" ?df]
  have "\<exists>m. process_excel nfkd_sample (env_of [ustr ''sheet_prefix_to_find''] ?df)
           (ustr ''/in/q1.xlsx'') empty_catalog = (Failed (ValueError m), empty_catalog)
        \<and> carries_text m (ustr ''column_a'')
        \<and> carries_text m (normalize_text_for_matching nfkd_sample (ustr ''column_a''))
        \<and> carries_list m (columns ?df)"
    by (rule inst) (simp add: one_sheet frame_of_simps no_column_matches del: set_simps)
  then show "\<exists>m. process_excel nfkd_sample (env_of [ustr ''sheet_prefix_to_find''] ?df)
           (ustr ''/in/q1.xlsx'') empty_catalog = (Failed (ValueError m), empty_catalog)
        \<and> carries_text m (ustr ''column_a'')
        \<and> carries_list m [ustr ''Foo'', ustr ''Bar'']"
    by (auto simp: frame_of_simps)
next
  let ?df = "frame_of [ustr ''Column_A'', ustr ''Bar'']"
  have h: "hdfs (env_of [ustr ''sheet_prefix_to_find''] ?df)
             = Some \<lparr>sheetnames = [ustr ''sheet_prefix_to_find''], sheets = (\<lambda>n. Inr ?df)\<rparr>"
    by (simp add: env_of_def)
  have c: "col (env_of [ustr ''sheet_prefix_to_find''] ?df) = sample_col"
    by (simp add: env_of_def)
  note inst = resolution_failure_is_diagnosable [OF nfkd_sample_fixes_ascii h,
      of "ustr ''/in/q1.xlsx''" empty_catalog, THEN conjunct2, THEN conjunct2, THEN conjunct2,
      rule_format, of "ustr ''sheet_prefix_to_find''" ?df "ustr ''Column_A''" "[]"
        "ustr ''Column_A''"]
  have "\<exists>m. process_excel nfkd_sample (env_of [ustr ''sheet_prefix_to_find''] ?df)
           (ustr ''/in/q1.xlsx'') empty_catalog = (Failed (ValueError m), empty_catalog)
        \<and> carries_text m (ustr ''column_b'')
        \<and> carries_text m (normalize_text_for_matching nfkd_sample (ustr ''column_b''))
        \<and> carries_list m (columns ?df)"
    by (rule inst) (simp add: one_sheet frame_of_simps no_column_matches one_column c
        del: set_simps)
  then show "\<exists>m. process_excel nfkd_sample (env_of [ustr ''sheet_prefix_to_find''] ?df)
           (ustr ''/in/q1.xlsx'') empty_catalog = (Failed (ValueError m), empty_catalog)
        \<and> carries_text m (ustr ''column_b'')
        \<and> carries_list m [ustr ''Column_A'', ustr ''Bar'']"
    by (auto simp: frame_of_simps)
qed

lemma gate_outcome:
  "fst (history_gate res cand st) = Skipped \<or> fst (history_gate res cand st) = Appended"
  by (simp add: history_gate_def Let_def)

lemma gate_skips_iff:
  "fst (history_gate res cand st) = Skipped \<longleftrightarrow>
     (\<exists>last_record more. res = Collected (last_record # more)
        \<and> fst last_record = filename cand \<and> snd last_record = flagged_line_count cand)"
  by (auto simp: history_gate_def Let_def split: sql_result.splits list.splits)

lemma gate_skipped: "history_gate res cand st = (Skipped, st') \<Longrightarrow> st' = st"
  by (auto simp: history_gate_def Let_def split: if_splits)

lemma gate_appended:
  "history_gate res cand st = (Appended, st') \<Longrightarrow>
     st' = st\<lparr>history_table :=
                Some ((case history_table st of None \<Rightarrow> [] | Some recs \<Rightarrow> recs) @ [cand])\<rparr>"
  by (auto simp: history_gate_def Let_def split: if_splits)

lemma gate_not_failed: "history_gate res cand st \<noteq> (Failed e, st')"
  by (auto simp: history_gate_def Let_def split: if_splits)

lemma sample_answers:
  "answers_query (history_table sample_catalog) (Collected [(ustr ''q1.xlsx'', 2)])"
  by (simp add: answers_query_def sample_catalog_def sample_history_def is_latest_def ustr_def)

text \<open>
  C1. In a run that reaches the gate, with \<open>cand\<close> the candidate record, the append is
  skipped exactly when the audit table exists, the query returned the fields of one of
  its records with the greatest timestamp, and that record has the candidate's filename
  and the candidate's count. In every other case the candidate is appended; so it is when
  there is no table, when the table is empty and when the query fails.
\<close>

theorem history_gate_decision:
  assumes q: "answers_query (history_table st) (latest_history env)"
    and i: "ingest nfkd env path st = Inr (st1, cand)"
  shows "(fst (process_excel nfkd env path st) = Skipped \<longleftrightarrow>
            (\<exists>recs r. history_table st = Some recs \<and> is_latest recs r
               \<and> latest_history env = Collected [(filename r, flagged_line_count r)]
               \<and> filename r = filename cand
               \<and> flagged_line_count r = flagged_line_count cand))
       \<and> (fst (process_excel nfkd env path st) \<noteq> Skipped \<longrightarrow>
            fst (process_excel nfkd env path st) = Appended
            \<and> history_table (snd (process_excel nfkd env path st)) =
                Some ((case history_table st of None \<Rightarrow> [] | Some recs \<Rightarrow> recs) @ [cand]))
       \<and> (history_table st = None \<or> history_table st = Some []
            \<or> latest_history env = SqlError \<longrightarrow>
            fst (process_excel nfkd env path st) = Appended)"
proof -
  let ?res = "latest_history env"
  have pe: "process_excel nfkd env path st = history_gate ?res cand st1"
    using i by (simp add: process_excel_def)
  have h: "history_table st1 = history_table st"
    using i by (rule ingest_keeps_history)
  have skip: "fst (history_gate ?res cand st1) = Skipped \<longleftrightarrow>
            (\<exists>recs r. history_table st = Some recs \<and> is_latest recs r
               \<and> ?res = Collected [(filename r, flagged_line_count r)]
               \<and> filename r = filename cand
               \<and> flagged_line_count r = flagged_line_count cand)"
  proof
    assume "fst (history_gate ?res cand st1) = Skipped"
    then obtain last_record more where
      c: "?res = Collected (last_record # more)"
         "fst last_record = filename cand" "snd last_record = flagged_line_count cand"
      by (auto simp: gate_skips_iff)
    with q obtain recs r where
      "history_table st = Some recs" "is_latest recs r"
      "last_record # more = [(filename r, flagged_line_count r)]"
      by (auto simp: answers_query_def list_ex_iff split: option.splits if_splits)
    with c show "\<exists>recs r. history_table st = Some recs \<and> is_latest recs r
               \<and> ?res = Collected [(filename r, flagged_line_count r)]
               \<and> filename r = filename cand
               \<and> flagged_line_count r = flagged_line_count cand"
      by auto
  next
    assume "\<exists>recs r. history_table st = Some recs \<and> is_latest recs r
               \<and> ?res = Collected [(filename r, flagged_line_count r)]
               \<and> filename r = filename cand
               \<and> flagged_line_count r = flagged_line_count cand"
    then show "fst (history_gate ?res cand st1) = Skipped"
      by (auto simp: gate_skips_iff)
  qed
  have app: "fst (history_gate ?res cand st1) \<noteq> Skipped \<longrightarrow>
            fst (history_gate ?res cand st1) = Appended
            \<and> history_table (snd (history_gate ?res cand st1)) =
                Some ((case history_table st of None \<Rightarrow> [] | Some recs \<Rightarrow> recs) @ [cand])"
  proof
    assume ns: "fst (history_gate ?res cand st1) \<noteq> Skipped"
    with gate_outcome [of ?res cand st1]
    have a: "fst (history_gate ?res cand st1) = Appended" by blast
    then have "history_gate ?res cand st1 = (Appended, snd (history_gate ?res cand st1))"
      by (simp add: prod_eq_iff)
    then have "snd (history_gate ?res cand st1) =
        st1\<lparr>history_table :=
                Some ((case history_table st1 of None \<Rightarrow> [] | Some recs \<Rightarrow> recs) @ [cand])\<rparr>"
      by (rule gate_appended)
    with a h show "fst (history_gate ?res cand st1) = Appended
            \<and> history_table (snd (history_gate ?res cand st1)) =
                Some ((case history_table st of None \<Rightarrow> [] | Some recs \<Rightarrow> recs) @ [cand])"
      by simp
  qed
  have first: "history_table st = None \<or> history_table st = Some [] \<or> ?res = SqlError \<longrightarrow>
            fst (history_gate ?res cand st1) = Appended"
  proof
    assume "history_table st = None \<or> history_table st = Some [] \<or> ?res = SqlError"
    with skip have "fst (history_gate ?res cand st1) \<noteq> Skipped"
      by (auto simp: is_latest_def)
    with app show "fst (history_gate ?res cand st1) = Appended" by blast
  qed
  from skip app first show ?thesis
    unfolding pe by blast
qed

theorem history_gate_decision_witness:
  "answers_query (history_table sample_catalog) (Collected [(ustr ''q1.xlsx'', 2)])
   \<and> fst (process_excel nfkd_sample (sample_env (Collected [(ustr ''q1.xlsx'', 2)]))
            (ustr ''/in/q1.xlsx'') sample_catalog) = Skipped
   \<and> (\<exists>recs r. history_table sample_catalog = Some recs \<and> is_latest recs r
         \<and> filename r = ustr ''q1.xlsx'' \<and> flagged_line_count r = 2)
   \<and> fst (process_excel nfkd_sample (sample_env SqlError) (ustr ''/in/q1.xlsx'') empty_catalog)
       = Appended"
proof -
  have q1: "answers_query (history_table sample_catalog)
              (latest_history (sample_env (Collected [(ustr ''q1.xlsx'', 2)])))"
    using sample_answers by (simp add: sample_env_def)
  note one = history_gate_decision [OF q1 sample_ingest]
  have s: "fst (process_excel nfkd_sample (sample_env (Collected [(ustr ''q1.xlsx'', 2)]))
            (ustr ''/in/q1.xlsx'') sample_catalog) = Skipped"
    by (simp add: process_excel_def sample_ingest history_gate_def sample_latest)
  with one have e: "\<exists>recs r. history_table sample_catalog = Some recs \<and> is_latest recs r
         \<and> filename r = ustr ''q1.xlsx'' \<and> flagged_line_count r = 2"
    by auto
  have q2: "answers_query (history_table empty_catalog) (latest_history (sample_env SqlError))"
    by (simp add: answers_query_def sample_env_def)
  have "history_table empty_catalog = None"
    by (simp add: empty_catalog_def)
  with history_gate_decision [OF q2 sample_ingest]
  have a: "fst (process_excel nfkd_sample (sample_env SqlError) (ustr ''/in/q1.xlsx'')
             empty_catalog) = Appended"
    by blast
  from sample_answers s e a show ?thesis by blast
qed

text \<open>
  C8. When the gate skips, it returns the catalog it was given, so the audit table after
  the run is the audit table before it. When it appends, it changes the audit table
  only, to its former records followed by the one candidate record of this run. A run
  that fails has written nothing.
\<close>

theorem history_write_frame:
  "(\<forall>st'. history_gate res cand st = (Skipped, st') \<longrightarrow> st' = st)
   \<and> (\<forall>st'. history_gate res cand st = (Appended, st') \<longrightarrow>
         st' = st\<lparr>history_table :=
                    Some ((case history_table st of None \<Rightarrow> [] | Some recs \<Rightarrow> recs)
                          @ [cand])\<rparr>)
   \<and> (\<forall>st2. process_excel nfkd env path st0 = (Skipped, st2) \<longrightarrow>
         history_table st2 = history_table st0)
   \<and> (\<forall>st2. process_excel nfkd env path st0 = (Appended, st2) \<longrightarrow>
         (\<exists>st1 candidate. ingest nfkd env path st0 = Inr (st1, candidate)
            \<and> filename candidate = basename path
            \<and> processing_timestamp candidate = clock env
            \<and> history_table st2 =
                Some ((case history_table st0 of None \<Rightarrow> [] | Some recs \<Rightarrow> recs)
                      @ [candidate])
            \<and> intermediate_table st2 = intermediate_table st1))
   \<and> (\<forall>e st2. process_excel nfkd env path st0 = (Failed e, st2) \<longrightarrow> st2 = st0)"
proof (intro conjI allI impI)
  fix st'
  assume "history_gate res cand st = (Skipped, st')"
  then show "st' = st" by (rule gate_skipped)
next
  fix st'
  assume "history_gate res cand st = (Appended, st')"
  then show "st' = st\<lparr>history_table :=
                    Some ((case history_table st of None \<Rightarrow> [] | Some recs \<Rightarrow> recs)
                          @ [cand])\<rparr>"
    by (rule gate_appended)
next
  fix st2
  assume p: "process_excel nfkd env path st0 = (Skipped, st2)"
  then obtain st1 candidate where
    i: "ingest nfkd env path st0 = Inr (st1, candidate)"
    and g: "history_gate (latest_history env) candidate st1 = (Skipped, st2)"
    by (auto simp: process_excel_def split: sum.splits)
  from g have "st2 = st1" by (rule gate_skipped)
  with i show "history_table st2 = history_table st0"
    by (simp add: ingest_keeps_history)
next
  fix st2
  assume p: "process_excel nfkd env path st0 = (Appended, st2)"
  then obtain st1 candidate where
    i: "ingest nfkd env path st0 = Inr (st1, candidate)"
    and g: "history_gate (latest_history env) candidate st1 = (Appended, st2)"
    by (auto simp: process_excel_def split: sum.splits)
  from g have "st2 = st1\<lparr>history_table :=
      Some ((case history_table st1 of None \<Rightarrow> [] | Some recs \<Rightarrow> recs) @ [candidate])\<rparr>"
    by (rule gate_appended)
  with i ingest_keeps_history [OF i] ingest_candidate [OF i]
  show "\<exists>st1 candidate. ingest nfkd env path st0 = Inr (st1, candidate)
            \<and> filename candidate = basename path
            \<and> processing_timestamp candidate = clock env
            \<and> history_table st2 =
                Some ((case history_table st0 of None \<Rightarrow> [] | Some recs \<Rightarrow> recs)
                      @ [candidate])
            \<and> intermediate_table st2 = intermediate_table st1"
    by simp
next
  fix e st2
  assume p: "process_excel nfkd env path st0 = (Failed e, st2)"
  show "st2 = st0"
  proof (cases "ingest nfkd env path st0")
    case (Inl err)
    with p show ?thesis by (simp add: process_excel_def)
  next
    case (Inr pr)
    with p gate_not_failed show ?thesis
      by (cases pr) (simp add: process_excel_def)
  qed
qed

theorem history_write_frame_witness:
  "(\<exists>st2. process_excel nfkd_sample (sample_env SqlError) (ustr ''/in/q1.xlsx'') empty_catalog
            = (Appended, st2)
          \<and> history_table st2 =
              Some [\<lparr>filename = ustr ''q1.xlsx'',
                     processing_timestamp = ustr ''2024-03-01 10:15'',
                     flagged_line_count = 2\<rparr>])
   \<and> (\<exists>st2. process_excel nfkd_sample (sample_env (Collected [(ustr ''q1.xlsx'', 2)]))
              (ustr ''/in/q1.xlsx'') sample_catalog = (Skipped, st2)
          \<and> history_table st2 = Some sample_history)"
proof -
  obtain st2 where
    p: "process_excel nfkd_sample (sample_env SqlError) (ustr ''/in/q1.xlsx'') empty_catalog
          = (Appended, st2)"
    by (simp add: process_excel_def sample_ingest history_gate_def sample_latest)
  note fr = history_write_frame
    [where nfkd = nfkd_sample and env = "sample_env SqlError"
       and path = "ustr ''/in/q1.xlsx''" and ?st0.0 = empty_catalog]
  from fr p have "history_table st2 =
              Some [\<lparr>filename = ustr ''q1.xlsx'',
                     processing_timestamp = ustr ''2024-03-01 10:15'',
                     flagged_line_count = 2\<rparr>]"
    by (auto simp: sample_ingest empty_catalog_def)
  with p have first: "\<exists>st2. process_excel nfkd_sample (sample_env SqlError)
            (ustr ''/in/q1.xlsx'') empty_catalog = (Appended, st2)
          \<and> history_table st2 =
              Some [\<lparr>filename = ustr ''q1.xlsx'',
                     processing_timestamp = ustr ''2024-03-01 10:15'',
                     flagged_line_count = 2\<rparr>]"
    by blast
  obtain st3 where
    s: "process_excel nfkd_sample (sample_env (Collected [(ustr ''q1.xlsx'', 2)]))
              (ustr ''/in/q1.xlsx'') sample_catalog = (Skipped, st3)"
    by (simp add: process_excel_def sample_ingest history_gate_def sample_latest)
  note fr2 = history_write_frame
    [where nfkd = nfkd_sample and env = "sample_env (Collected [(ustr ''q1.xlsx'', 2)])"
       and path = "ustr ''/in/q1.xlsx''" and ?st0.0 = sample_catalog]
  from fr2 s have "history_table st3 = history_table sample_catalog"
    by blast
  then have "history_table st3 = Some sample_history"
    by (simp add: sample_catalog_def)
  with s first show ?thesis by blast
qed

end
